theory Spec2Isabelle
  imports Complex_Main
begin

section \<open>The Renpho cloud client: data model\<close>

text \<open>
  A shallow embedding of \<^verbatim>\<open>custom_components/renpho/api_renpho.py\<close> (class
  \<^verbatim>\<open>RenphoWeight\<close>). The client is a Python object whose attributes are mutated by
  coroutines; here every method takes the client state and returns the new one, together
  with either the raised exception (\<open>Inl\<close>) or the returned value (\<open>Inr\<close>).
  Everything outside the process (the HTTP peers, the crypto library, the decoders of
  module \<^verbatim>\<open>api_object\<close>, the clock) is a parameter, collected in the record \<open>world\<close>.
\<close>

subsection \<open>Python values\<close>

text \<open>Values of a parsed JSON body and of dynamically typed attributes.\<close>

datatype pyval =
    PNone
  | PBool bool
  | PNum real
  | PStr string
  | PList "pyval list"
  | PDict "(string \<times> pyval) list"

text \<open>An object of module \<^verbatim>\<open>api_object\<close>, seen as its attributes.\<close>

type_synonym obj = "(string \<times> pyval) list"

text \<open>Python truthiness (\<^verbatim>\<open>if x:\<close>, \<^verbatim>\<open>not x\<close>).\<close>

fun truthy :: "pyval \<Rightarrow> bool" where
  "truthy PNone = False"
| "truthy (PBool b) = b"
| "truthy (PNum x) = (x \<noteq> 0)"
| "truthy (PStr s) = (s \<noteq> [])"
| "truthy (PList xs) = (xs \<noteq> [])"
| "truthy (PDict d) = (d \<noteq> [])"

text \<open>\<^verbatim>\<open>d.get(k)\<close> on a dict, with \<^verbatim>\<open>None\<close> for a missing key.\<close>

definition dict_get :: "(string \<times> pyval) list \<Rightarrow> string \<Rightarrow> pyval" where
  "dict_get d k = (case map_of d k of None \<Rightarrow> PNone | Some v \<Rightarrow> v)"

text \<open>\<^verbatim>\<open>k in d\<close>.\<close>

definition dict_has :: "(string \<times> pyval) list \<Rightarrow> string \<Rightarrow> bool" where
  "dict_has d k = (map_of d k \<noteq> None)"

text \<open>\<^verbatim>\<open>d[k] = v\<close>.\<close>

definition dict_set :: "(string \<times> pyval) list \<Rightarrow> string \<Rightarrow> pyval \<Rightarrow> (string \<times> pyval) list" where
  "dict_set d k v = (k, v) # filter (\<lambda>kv. fst kv \<noteq> k) d"

text \<open>\<^verbatim>\<open>s.endswith(suf)\<close>.\<close>

definition endswith :: "string \<Rightarrow> string \<Rightarrow> bool" where
  "endswith s suf = (length suf \<le> length s \<and> drop (length s - length suf) s = suf)"

subsection \<open>Exceptions\<close>

text \<open>
  The module defines three exception classes; every other exception that reaches the
  client (\<^verbatim>\<open>ValueError\<close>, \<^verbatim>\<open>AttributeError\<close>, \<^verbatim>\<open>TypeError\<close>, ...) is \<open>Other\<close> with its
  class name. All of them are subclasses of \<^verbatim>\<open>Exception\<close>, so an \<^verbatim>\<open>except Exception\<close>
  handler catches every value of this type.
\<close>

datatype exn = AuthenticationError | APIError | ClientSSLError | Other string

subsection \<open>Typed payload entries\<close>

text \<open>
  Modelled from the spec: the classes \<^verbatim>\<open>Girth\<close> and \<^verbatim>\<open>GirthGoal\<close> of module
  \<^verbatim>\<open>api_object\<close>, which is not among the source files. A girth entry maps metric
  names to numeric values and carries a timestamp; a girth goal has a girth type, a goal
  value and a goal-setup timestamp. A numeric attribute holds a number or \<^verbatim>\<open>None\<close>.
\<close>

record girth =
  time_stamp :: int
  attrs :: "(string \<times> real option) list"

record girth_goal =
  girth_type :: string
  goal_value :: "real option"
  setup_goal_at :: int

subsection \<open>The world outside the client\<close>

datatype proxy_result =
    Status200
  | StatusOther
  | GetRaised

datatype http_result =
    ClientError
  | OtherFailure string
  | Body pyval

type_synonym rsa_key = "nat \<times> nat"

text \<open>
  \<open>proxy_results n\<close> is the outcome of the \<open>n\<close>-th reachability probe, \<open>login_results n\<close>
  of the \<open>n\<close>-th sign-in POST and \<open>api_results n\<close> of the \<open>n\<close>-th API request, each counted
  from 0 in the order the client issues them. \<open>ClientError\<close> stands for
  \<^verbatim>\<open>aiohttp.ClientResponseError\<close> or \<^verbatim>\<open>aiohttp.ClientConnectionError\<close> (raised by the
  request, by \<^verbatim>\<open>raise_for_status\<close> or by \<^verbatim>\<open>response.json()\<close>), \<open>OtherFailure c\<close> for
  an exception of any other class \<open>c\<close>, \<open>Body v\<close> for the parsed JSON body.
  \<open>sleep_cancelled n\<close> tells whether the poll task is cancelled during the sleep that
  starts after \<open>n\<close> events. Cancellation is modelled at that sleep only; the other
  operations are run as sequential code.
  The library calls are parameters as well: a failing call returns \<open>Inl\<close> with the class
  of the exception it raises; so does a constructor of \<^verbatim>\<open>api_object\<close>.
\<close>

record world =
  proxy_results :: "nat \<Rightarrow> proxy_result"
  login_results :: "nat \<Rightarrow> http_result"
  api_results :: "nat \<Rightarrow> http_result"
  sleep_cancelled :: "nat \<Rightarrow> bool"
  ProxyConnector_from_url :: "string \<Rightarrow> bool"
  RSA_importKey :: "string \<Rightarrow> string + rsa_key"
  PKCS1_encrypt :: "rsa_key \<Rightarrow> string \<Rightarrow> string + string"
  b64encode :: "string \<Rightarrow> string"
  py_str :: "pyval \<Rightarrow> string"
  get_timestamp :: string
  time_time :: "nat \<Rightarrow> real"
  MeasurementDetail :: "pyval \<Rightarrow> string + obj"
  DeviceBind :: "pyval \<Rightarrow> string + obj"
  UserResponse :: "(string \<times> pyval) list \<Rightarrow> string + obj"
  GirthResponse :: "(string \<times> pyval) list \<Rightarrow> string + girth list"
  GirthGoalsResponse :: "(string \<times> pyval) list \<Rightarrow> string + girth_goal list"

subsection \<open>Observable effects\<close>

datatype level = Debug | Info | Warning | Error

datatype event =
    Log level string
  | ProxyCheck
  | LoginPost string string
  | ApiRequest string string
  | Sleep real
  | TaskCreated
  | TaskCancelled

subsection \<open>The client state\<close>

text \<open>
  \<open>polling_task\<close> and \<open>refresh_interval\<close> are attributes that \<^verbatim>\<open>__init__\<close> does not
  create: \<open>Unset\<close> and \<open>None\<close> stand for the missing attribute, whose read raises
  \<^verbatim>\<open>AttributeError\<close>.
\<close>

datatype task_attr = Unset | TaskNone | Task

record state =
  public_key :: "string option"
  email :: string
  password :: string
  user_id :: pyval
  refresh :: real
  refresh_interval :: "real option"
  token :: pyval
  login_data :: "obj option"
  weight_info :: "obj option"
  weight_history :: "obj list"
  weight :: pyval
  weight_time_stamp :: pyval
  device_info :: "obj list option"
  girth_info :: "girth list option"
  girth_goals :: "girth_goal list option"
  growth_record :: pyval
  last_updated_weight :: "real option"
  last_updated_girth :: "real option"
  last_updated_girth_goal :: "real option"
  last_updated_growth_record :: "real option"
  auth_in_progress :: bool
  is_polling_active :: bool
  polling_task :: task_attr
  proxy :: "string option"
  events :: "event list"

definition emit :: "event \<Rightarrow> state \<Rightarrow> state" where
  "emit e s = s\<lparr>events := events s @ [e]\<rparr>"

definition is_proxy_check :: "event \<Rightarrow> bool" where
  "is_proxy_check e = (case e of ProxyCheck \<Rightarrow> True | _ \<Rightarrow> False)"

definition is_login_post :: "event \<Rightarrow> bool" where
  "is_login_post e = (case e of LoginPost _ _ \<Rightarrow> True | _ \<Rightarrow> False)"

definition is_api_request :: "event \<Rightarrow> bool" where
  "is_api_request e = (case e of ApiRequest _ _ \<Rightarrow> True | _ \<Rightarrow> False)"

definition is_network :: "event \<Rightarrow> bool" where
  "is_network e = (is_proxy_check e \<or> is_login_post e \<or> is_api_request e)"

definition n_proxy :: "state \<Rightarrow> nat" where
  "n_proxy s = length (filter is_proxy_check (events s))"

definition n_login :: "state \<Rightarrow> nat" where
  "n_login s = length (filter is_login_post (events s))"

definition n_api :: "state \<Rightarrow> nat" where
  "n_api s = length (filter is_api_request (events s))"

definition now :: "world \<Rightarrow> state \<Rightarrow> real" where
  "now w s = time_time w (length (events s))"

section \<open>The client's operations\<close>

subsection \<open>Construction\<close>

text \<open>\<^verbatim>\<open>CONF_PUBLIC_KEY\<close> of \<^verbatim>\<open>const.py\<close>.\<close>

definition CONF_PUBLIC_KEY :: string where
  "CONF_PUBLIC_KEY =
     ''-----BEGIN PUBLIC KEY-----'' @ [CHR 0x0A] @
     ''MIGfMA0GCSqGSIb3DQEBAQUAA4GNADCBiQKBgQC+25I2upukpfQ7rIaaTZtVE744'' @ [CHR 0x0A] @
     ''u2zV+HaagrUhDOTq8fMVf9yFQvEZh2/HKxFudUxP0dXUa8F6X4XmWumHdQnum3zm'' @ [CHR 0x0A] @
     ''Jr04fz2b2WCcN0ta/rbF2nYAnMVAk2OJVZAMudOiMWhcxV1nNJiKgTNNr13de0EQ'' @ [CHR 0x0A] @
     ''IiOL2CUBzu+HmIfUbQIDAQAB'' @ [CHR 0x0A] @
     ''-----END PUBLIC KEY-----''"

text \<open>
  \<^verbatim>\<open>RenphoWeight.__init__(email, password, user_id, refresh, proxy)\<close>. An empty user id
  becomes \<^verbatim>\<open>None\<close>; the refresh period is stored in \<open>refresh\<close>, and neither
  \<open>refresh_interval\<close> nor \<open>polling_task\<close> is created.
\<close>

definition init :: "string \<Rightarrow> string \<Rightarrow> pyval \<Rightarrow> real \<Rightarrow> string option \<Rightarrow> state" where
  "init em pw uid rf px =
     \<lparr> public_key = Some CONF_PUBLIC_KEY,
       email = em,
       password = pw,
       user_id = (if uid = PStr [] then PNone else uid),
       refresh = rf,
       refresh_interval = None,
       token = PNone,
       login_data = None,
       weight_info = None,
       weight_history = [],
       weight = PNone,
       weight_time_stamp = PNone,
       device_info = None,
       girth_info = None,
       girth_goals = None,
       growth_record = PNone,
       last_updated_weight = None,
       last_updated_girth = None,
       last_updated_girth_goal = None,
       last_updated_growth_record = None,
       auth_in_progress = False,
       is_polling_active = False,
       polling_task = Unset,
       proxy = px,
       events = [Log Info ''Initializing RenphoWeight instance.''] \<rparr>"

subsection \<open>Reachability probe\<close>

text \<open>
  \<^verbatim>\<open>check_proxy\<close>. An unset or empty proxy means a direct connection. When
  \<^verbatim>\<open>ProxyConnector.from_url\<close> raises, the handler logs and returns \<^verbatim>\<open>False\<close>, but the
  \<^verbatim>\<open>finally\<close> clause then closes a session that was never bound, so the call raises
  \<^verbatim>\<open>UnboundLocalError\<close>.
\<close>

definition proxy_url :: "state \<Rightarrow> string" where
  "proxy_url s = (case proxy s of None \<Rightarrow> [] | Some u \<Rightarrow> u)"

definition check_proxy :: "world \<Rightarrow> state \<Rightarrow> (exn + bool) \<times> state" where
  "check_proxy w s =
     (let s1 = emit (Log Info (if proxy_url s = []
                               then ''No proxy configured. Proceeding without proxy.''
                               else ''Checking proxy connectivity using proxy'')) s
      in if proxy_url s \<noteq> [] \<and> \<not> ProxyConnector_from_url w (proxy_url s)
         then (Inl (Other ''UnboundLocalError''), emit (Log Error ''Proxy connection failed'') s1)
         else (let s2 = emit ProxyCheck s1
               in case proxy_results w (n_proxy s1) of
                    Status200 \<Rightarrow>
                      (Inr True, emit (Log Info (if proxy_url s = []
                                                 then ''Direct connection successful.''
                                                 else ''Proxy check successful.'')) s2)
                  | StatusOther \<Rightarrow> (Inr False, emit (Log Error ''Failed to connect'') s2)
                  | GetRaised \<Rightarrow> (Inr False, emit (Log Error ''Proxy connection failed'') s2)))"

subsection \<open>Credential encryption\<close>

text \<open>
  \<^verbatim>\<open>encrypt_password(public_key_str, password)\<close>: import the key, encrypt with PKCS#1
  v1.5, base64-encode. Any exception of the library is logged and re-raised as it is
  (a bare \<^verbatim>\<open>raise\<close>).
\<close>

definition encrypt_password :: "world \<Rightarrow> string \<Rightarrow> string \<Rightarrow> state \<Rightarrow> (exn + string) \<times> state" where
  "encrypt_password w public_key_str pw s =
     (case RSA_importKey w public_key_str of
        Inl c \<Rightarrow> (Inl (Other c), emit (Log Error ''Encryption error'') s)
      | Inr k \<Rightarrow>
          (case PKCS1_encrypt w k pw of
             Inl c \<Rightarrow> (Inl (Other c), emit (Log Error ''Encryption error'') s)
           | Inr ct \<Rightarrow> (Inr (b64encode w ct), s)))"

subsection \<open>Authentication\<close>

text \<open>Iterating a Python value in a comprehension.\<close>

fun py_iter :: "pyval \<Rightarrow> string + pyval list" where
  "py_iter (PList xs) = Inr xs"
| "py_iter (PStr cs) = Inr (map (\<lambda>c. PStr [c]) cs)"
| "py_iter (PDict d) = Inr (map (\<lambda>kv. PStr (fst kv)) d)"
| "py_iter v = Inl ''TypeError''"

text \<open>\<^verbatim>\<open>[C(**x) for x in xs]\<close>: the first constructor that raises ends the comprehension.\<close>

fun construct_all :: "(pyval \<Rightarrow> string + obj) \<Rightarrow> pyval list \<Rightarrow> string + obj list" where
  "construct_all C [] = Inr []"
| "construct_all C (x # xs) =
     (case C x of
        Inl c \<Rightarrow> Inl c
      | Inr v \<Rightarrow> (case construct_all C xs of Inl c \<Rightarrow> Inl c | Inr vs \<Rightarrow> Inr (v # vs)))"

definition comprehension :: "(pyval \<Rightarrow> string + obj) \<Rightarrow> pyval \<Rightarrow> string + obj list" where
  "comprehension C v = (case py_iter v of Inl c \<Rightarrow> Inl c | Inr xs \<Rightarrow> construct_all C xs)"

text \<open>
  The body of the \<^verbatim>\<open>try\<close> in \<^verbatim>\<open>auth\<close> once the sign-in response is a dict \<open>d\<close>:
  \<open>Some (Inl e)\<close> when it raises \<open>e\<close>, \<open>Some (Inr v)\<close> when it returns \<open>v\<close>, \<open>None\<close> when it
  reaches its end without returning (the \<^verbatim>\<open>for\<close> loop then goes to its next attempt).
\<close>

definition login_body :: "world \<Rightarrow> (string \<times> pyval) list \<Rightarrow> state \<Rightarrow> (exn + pyval) option \<times> state" where
  "login_body w d s =
     (if dict_get d ''status_code'' = PStr ''50000''
         \<and> dict_get d ''status_message'' = PStr ''Email was not registered''
      then (Some (Inl AuthenticationError), emit (Log Warning ''Email was not registered.'') s)
      else if dict_get d ''status_code'' = PStr ''500''
         \<and> dict_get d ''status_message'' = PStr ''Internal Server Error''
      then (Some (Inl AuthenticationError),
            emit (Log Warning ''Bad Password or Internal Server Error.'') s)
      else if \<not> dict_has d ''terminal_user_session_key''
      then (Some (Inl AuthenticationError),
            emit (Log Error ''terminal_user_session_key not found in parsed object.'') s)
      else if dict_get d ''status_code'' = PStr ''20000''
         \<and> dict_get d ''status_message'' = PStr ''ok''
      then (let s1 = s\<lparr>token := dict_get d ''terminal_user_session_key''\<rparr>
            in case (if dict_has d ''device_binds_ary''
                     then comprehension (DeviceBind w) (dict_get d ''device_binds_ary'')
                     else Inr []) of
                 Inl c \<Rightarrow> (Some (Inl (Other c)), s1)
               | Inr devs \<Rightarrow>
                   (let d' = dict_set d ''device_binds_ary'' (PList (map PDict devs))
                    in case UserResponse w d' of
                         Inl c \<Rightarrow> (Some (Inl (Other c)), s1)
                       | Inr ld \<Rightarrow>
                           (let s2 = s1\<lparr>login_data := Some ld,
                                         token := dict_get d' ''terminal_user_session_key''\<rparr>
                            in (Some (Inr (PBool True)),
                                if user_id s2 = PNone
                                then s2\<lparr>user_id := dict_get ld ''id''\<rparr>
                                else s2))))
      else (None, s))"

text \<open>
  The loop \<^verbatim>\<open>for attempt in range(3)\<close> of \<^verbatim>\<open>auth\<close>, by the number of attempts left
  (\<open>attempt < 3 - 1\<close> is \<open>0 < n\<close> after this one). Every way out of an attempt passes the
  \<^verbatim>\<open>finally\<close> clause, which clears \<open>auth_in_progress\<close>. Leaving the loop returns
  \<^verbatim>\<open>None\<close>.
\<close>

primrec auth_attempts :: "world \<Rightarrow> string \<Rightarrow> nat \<Rightarrow> state \<Rightarrow> (exn + pyval) \<times> state" where
  "auth_attempts w enc 0 s = (Inr PNone, s)"
| "auth_attempts w enc (Suc n) s =
     (case check_proxy w (s\<lparr>token := PNone\<rparr>) of
        (Inl e, s2) \<Rightarrow> (Inl e, s2\<lparr>auth_in_progress := False\<rparr>)
      | (Inr ok, s2) \<Rightarrow>
          if \<not> ok
          then (Inl APIError,
                (emit (Log Error ''Proxy check failed. Aborting authentication.'') s2)
                  \<lparr>auth_in_progress := False\<rparr>)
          else (let s3 = emit (LoginPost (email s2) enc) s2
                in case login_results w (n_login s2) of
                     ClientError \<Rightarrow>
                       (let s4 = emit (Log Error ''Authentication failed'') s3
                        in if 0 < n
                           then auth_attempts w enc n
                                  ((emit (Sleep 5) s4)\<lparr>auth_in_progress := False\<rparr>)
                           else (Inl AuthenticationError, s4\<lparr>auth_in_progress := False\<rparr>))
                   | OtherFailure c \<Rightarrow> (Inl (Other c), s3\<lparr>auth_in_progress := False\<rparr>)
                   | Body parsed \<Rightarrow>
                       (case parsed of
                          PNone \<Rightarrow>
                            (Inl AuthenticationError,
                             (emit (Log Error ''Authentication failed. No response received.'') s3)
                               \<lparr>auth_in_progress := False\<rparr>)
                        | PDict d \<Rightarrow>
                            (case login_body w d s3 of
                               (Some (Inl e), s4) \<Rightarrow> (Inl e, s4\<lparr>auth_in_progress := False\<rparr>)
                             | (Some (Inr v), s4) \<Rightarrow> (Inr v, s4\<lparr>auth_in_progress := False\<rparr>)
                             | (None, s4) \<Rightarrow>
                                 auth_attempts w enc n (s4\<lparr>auth_in_progress := False\<rparr>))
                        | _ \<Rightarrow> (Inl (Other ''AttributeError''),
                                s3\<lparr>auth_in_progress := False\<rparr>))))"

text \<open>
  \<^verbatim>\<open>auth\<close>. The in-progress guard comes first; the flag is then set, and the three
  checks that follow (credentials, public key, encryption) raise outside the
  \<^verbatim>\<open>try ... finally\<close> of the loop.
\<close>

definition auth :: "world \<Rightarrow> state \<Rightarrow> (exn + pyval) \<times> state" where
  "auth w s =
     (if auth_in_progress s then (Inr (PBool False), s)
      else (let s1 = s\<lparr>auth_in_progress := True\<rparr>
            in if email s1 = [] \<or> password s1 = []
               then (Inl AuthenticationError, s1)
               else (case public_key s1 of
                       None \<Rightarrow> (Inl AuthenticationError, emit (Log Error ''Public key is None.'') s1)
                     | Some k \<Rightarrow>
                         (case encrypt_password w k (password s1) s1 of
                            (Inl e, s2) \<Rightarrow> (Inl e, s2)
                          | (Inr enc, s2) \<Rightarrow> auth_attempts w enc 3 s2))))"

subsection \<open>The poller's switches\<close>

text \<open>\<^verbatim>\<open>start_polling\<close>: the created task runs \<open>polling_loop\<close>.\<close>

definition start_polling :: "state \<Rightarrow> state" where
  "start_polling s =
     (if is_polling_active s then emit (Log Warning ''Polling is already active.'') s
      else emit TaskCreated (s\<lparr>is_polling_active := True, polling_task := Task\<rparr>))"

text \<open>\<^verbatim>\<open>stop_polling\<close>; reading a \<open>polling_task\<close> that was never created raises.\<close>

definition stop_polling :: "state \<Rightarrow> (exn + unit) \<times> state" where
  "stop_polling s =
     (if \<not> is_polling_active s then (Inr (), emit (Log Warning ''Polling is not active.'') s)
      else (case polling_task s of
              Unset \<Rightarrow> (Inl (Other ''AttributeError''), s)
            | TaskNone \<Rightarrow> (Inr (), s)
            | Task \<Rightarrow>
                (Inr (), (emit (Log Info ''Polling has been stopped.'') (emit TaskCancelled s))
                           \<lparr>is_polling_active := False, polling_task := TaskNone\<rparr>)))"

subsection \<open>Requests with retry on session expiry\<close>

text \<open>
  The \<^verbatim>\<open>while retries > 0\<close> loop of \<^verbatim>\<open>_request\<close>, by the retries left. Each round
  authenticates first when \<^verbatim>\<open>not self.token and not url.endswith("sign_in.json") or not skip_auth\<close>,
  then issues the request and classifies the response. On status \<^verbatim>\<open>"40302"\<close> it clears
  \<^verbatim>\<open>skip_auth\<close>, authenticates, decrements \<^verbatim>\<open>retries\<close> and continues; the exceptions
  raised there are not among those caught by the \<^verbatim>\<open>except\<close> clause. A response that is
  not a dict has no \<^verbatim>\<open>get\<close>. When the loop ends the method returns \<^verbatim>\<open>None\<close>. All callers
  pass no keyword arguments, so \<^verbatim>\<open>prepare_data\<close> has nothing to convert.
\<close>

primrec request_loop ::
  "world \<Rightarrow> string \<Rightarrow> string \<Rightarrow> nat \<Rightarrow> bool \<Rightarrow> state \<Rightarrow> (exn + pyval) \<times> state" where
  "request_loop w method url 0 skip_auth s = (Inr PNone, s)"
| "request_loop w method url (Suc r) skip_auth s =
     (case (if (\<not> truthy (token s) \<and> \<not> endswith url ''sign_in.json'') \<or> \<not> skip_auth
            then (case auth w s of
                    (Inl e, s1) \<Rightarrow> (Inl e, s1)
                  | (Inr auth_success, s1) \<Rightarrow>
                      if \<not> truthy auth_success then (Inl AuthenticationError, s1)
                      else (Inr (), s1))
            else (Inr (), s)) of
        (Inl e, s1) \<Rightarrow> (Inl e, s1)
      | (Inr _, s1) \<Rightarrow>
          (let s2 = emit (ApiRequest method url) s1
           in case api_results w (n_api s1) of
                ClientError \<Rightarrow> (Inl APIError, emit (Log Error ''Client error'') s2)
              | OtherFailure c \<Rightarrow> (Inl (Other c), s2)
              | Body parsed_response \<Rightarrow>
                  (case parsed_response of
                     PDict d \<Rightarrow>
                       if dict_get d ''status_code'' = PStr ''40302''
                       then (case auth w s2 of
                               (Inl e, s3) \<Rightarrow> (Inl e, s3)
                             | (Inr auth_success, s3) \<Rightarrow>
                                 if \<not> truthy auth_success then (Inl AuthenticationError, s3)
                                 else request_loop w method url r False s3)
                       else if dict_get d ''status_code'' = PStr ''50000''
                       then (Inl APIError, s2)
                       else if dict_get d ''status_code'' = PStr ''20000''
                               \<and> dict_get d ''status_message'' = PStr ''ok''
                       then (Inr parsed_response, s2)
                       else (Inl APIError, s2)
                   | _ \<Rightarrow> (Inl (Other ''AttributeError''), s2))))"

text \<open>\<^verbatim>\<open>_request(method, url, retries, skip_auth)\<close>: the reachability probe, then the loop.\<close>

definition request ::
  "world \<Rightarrow> string \<Rightarrow> string \<Rightarrow> nat \<Rightarrow> bool \<Rightarrow> state \<Rightarrow> (exn + pyval) \<times> state" where
  "request w method url retries skip_auth s =
     (case check_proxy w s of
        (Inl e, s1) \<Rightarrow> (Inl e, s1)
      | (Inr ok, s1) \<Rightarrow>
          if \<not> ok
          then (Inl APIError, emit (Log Error ''Proxy check failed. Aborting authentication.'') s1)
          else request_loop w method url retries skip_auth s1)"

subsection \<open>Data fetchers\<close>

definition API_MEASUREMENTS_URL :: string where
  "API_MEASUREMENTS_URL = ''https://renpho.qnclouds.com/api/v2/measurements/list.json''"

definition DEVICE_INFO_URL :: string where
  "DEVICE_INFO_URL = ''https://renpho.qnclouds.com/api/v2/device_binds/get_device.json''"

definition GIRTH_URL :: string where
  "GIRTH_URL = ''https://renpho.qnclouds.com/api/v3/girths/list_girth.json''"

definition GIRTH_GOAL_URL :: string where
  "GIRTH_GOAL_URL = ''https://renpho.qnclouds.com/api/v3/girth_goals/list_girth_goal.json''"

definition GROWTH_RECORD_URL :: string where
  "GROWTH_RECORD_URL = ''https://renpho.qnclouds.com/api/v3/growth_records/list_growth_record.json''"

definition MESSAGE_LIST_URL :: string where
  "MESSAGE_LIST_URL = ''https://renpho.qnclouds.com/api/v2/messages/list.json''"

text \<open>The f-string that builds a fetcher's URL; \<open>since\<close> names the timestamp parameter.\<close>

definition api_url :: "world \<Rightarrow> string \<Rightarrow> string \<Rightarrow> state \<Rightarrow> string" where
  "api_url w base since s =
     base @ ''?user_id='' @ py_str w (user_id s) @ ''&'' @ since @ ''='' @ get_timestamp w
       @ ''&locale=en&app_id=Renpho&terminal_user_session_key='' @ py_str w (token s)"

text \<open>Reading an attribute of an object: \<open>Inl\<close> is \<^verbatim>\<open>AttributeError\<close>.\<close>

definition getattr :: "obj \<Rightarrow> string \<Rightarrow> exn + pyval" where
  "getattr x name = (case map_of x name of None \<Rightarrow> Inl (Other ''AttributeError'') | Some v \<Rightarrow> Inr v)"

text \<open>
  \<^verbatim>\<open>get_measurements\<close>. The whole body after the URL is inside
  \<^verbatim>\<open>try ... except Exception\<close>, whose handler logs and returns \<^verbatim>\<open>None\<close>; the attributes
  assigned before an exception keep their new values. A truthy response that is not a
  dict ends in one of the logging branches or in the handler.
\<close>

definition get_measurements :: "world \<Rightarrow> state \<Rightarrow> (exn + obj option) \<times> state" where
  "get_measurements w s =
     (case request w ''GET'' (api_url w API_MEASUREMENTS_URL ''last_at'' s) 3 True s of
        (Inl e, s1) \<Rightarrow> (Inr None, emit (Log Error ''Failed to fetch weight measurements'') s1)
      | (Inr parsed, s1) \<Rightarrow>
          if \<not> truthy parsed
          then (Inr None, emit (Log Error ''Failed to fetch weight measurements.'') s1)
          else (case parsed of
                  PDict d \<Rightarrow>
                    if dict_has d ''status_code'' \<and> dict_get d ''status_code'' = PStr ''20000''
                    then (if \<not> dict_has d ''last_ary''
                          then (Inr None,
                                emit (Log Error ''No weight measurements found in the response.'') s1)
                          else if truthy (dict_get d ''last_ary'')
                          then (case comprehension (MeasurementDetail w) (dict_get d ''last_ary'') of
                                  Inl c \<Rightarrow>
                                    (Inr None,
                                     emit (Log Error ''Failed to fetch weight measurements'') s1)
                                | Inr [] \<Rightarrow>
                                    (let s2 = s1\<lparr>weight_history := [], weight_info := None,
                                                  weight := PNone, weight_time_stamp := PNone\<rparr>
                                     in (Inr None, s2\<lparr>last_updated_weight := Some (now w s2)\<rparr>))
                                | Inr (m # ms) \<Rightarrow>
                                    (let s2 = s1\<lparr>weight_history := m # ms, weight_info := Some m\<rparr>
                                     in case getattr m ''weight'' of
                                          Inl e \<Rightarrow>
                                            (Inr None,
                                             emit (Log Error ''Failed to fetch weight measurements'') s2)
                                        | Inr wt \<Rightarrow>
                                            (case getattr m ''time_stamp'' of
                                               Inl e \<Rightarrow>
                                                 (Inr None,
                                                  emit (Log Error ''Failed to fetch weight measurements'')
                                                    (s2\<lparr>weight := wt\<rparr>))
                                             | Inr ts \<Rightarrow>
                                                 (let s3 = s2\<lparr>weight := wt, weight_time_stamp := ts\<rparr>
                                                  in (Inr (Some m),
                                                      s3\<lparr>last_updated_weight := Some (now w s3)\<rparr>)))))
                          else (Inr None,
                                emit (Log Error ''No weight measurements found in the response.'') s1))
                    else (Inr None,
                          emit (Log Error
                                  (if \<not> dict_has d ''status_code''
                                   then ''Invalid response format received from weight measurements endpoint.''
                                   else ''Error fetching weight measurements'')) s1)
                | _ \<Rightarrow> (Inr None, emit (Log Error ''Failed to fetch weight measurements'') s1)))"

text \<open>\<^verbatim>\<open>get_info\<close>.\<close>

definition get_info :: "world \<Rightarrow> state \<Rightarrow> (exn + obj option) \<times> state" where
  "get_info w s = get_measurements w (s\<lparr>last_updated_weight := Some (now w s)\<rparr>)"

text \<open>\<^verbatim>\<open>get_device_info\<close>.\<close>

definition get_device_info :: "world \<Rightarrow> state \<Rightarrow> (exn + obj list option) \<times> state" where
  "get_device_info w s =
     (case request w ''GET'' (api_url w DEVICE_INFO_URL ''last_updated_at'' s) 3 True s of
        (Inl e, s1) \<Rightarrow> (Inr None, emit (Log Error ''Failed to fetch device info'') s1)
      | (Inr parsed, s1) \<Rightarrow>
          if \<not> truthy parsed then (Inr None, emit (Log Error ''Failed to fetch device info.'') s1)
          else (case parsed of
                  PDict d \<Rightarrow>
                    if dict_get d ''status_code'' = PStr ''20000'' \<and> dict_has d ''device_binds_ary''
                    then (case comprehension (DeviceBind w) (dict_get d ''device_binds_ary'') of
                            Inl c \<Rightarrow> (Inr None, emit (Log Error ''Failed to fetch device info'') s1)
                          | Inr devs \<Rightarrow> (Inr (Some devs), s1\<lparr>device_info := Some devs\<rparr>))
                    else (Inr None,
                          emit (Log Error
                                  (if \<not> dict_has d ''status_code''
                                   then ''Invalid response format received from device info endpoint.''
                                   else ''Error fetching device info'')) s1)
                | _ \<Rightarrow> (Inr None, emit (Log Error ''Failed to fetch device info'') s1)))"

text \<open>\<^verbatim>\<open>list_girth\<close>.\<close>

definition list_girth :: "world \<Rightarrow> state \<Rightarrow> (exn + girth list option) \<times> state" where
  "list_girth w s =
     (case request w ''GET'' (api_url w GIRTH_URL ''last_updated_at'' s) 3 True s of
        (Inl e, s1) \<Rightarrow> (Inr None, emit (Log Error ''Failed to fetch girth info'') s1)
      | (Inr parsed, s1) \<Rightarrow>
          if \<not> truthy parsed then (Inr None, emit (Log Error ''Failed to fetch girth info.'') s1)
          else (case parsed of
                  PDict d \<Rightarrow>
                    if dict_has d ''status_code'' \<and> dict_get d ''status_code'' = PStr ''20000''
                    then (case GirthResponse w d of
                            Inl c \<Rightarrow> (Inr None, emit (Log Error ''Failed to fetch girth info'') s1)
                          | Inr gs \<Rightarrow>
                              (Inr (Some gs),
                               s1\<lparr>last_updated_girth := Some (now w s1), girth_info := Some gs\<rparr>))
                    else (Inr None, emit (Log Error ''Error fetching girth info'') s1)
                | _ \<Rightarrow> (Inr None, emit (Log Error ''Failed to fetch girth info'') s1)))"

text \<open>\<^verbatim>\<open>list_girth_goal\<close>.\<close>

definition list_girth_goal :: "world \<Rightarrow> state \<Rightarrow> (exn + girth_goal list option) \<times> state" where
  "list_girth_goal w s =
     (case request w ''GET'' (api_url w GIRTH_GOAL_URL ''last_updated_at'' s) 3 True s of
        (Inl e, s1) \<Rightarrow> (Inr None, emit (Log Error ''Failed to fetch girth goal'') s1)
      | (Inr parsed, s1) \<Rightarrow>
          if \<not> truthy parsed then (Inr None, emit (Log Error ''Failed to fetch girth goal.'') s1)
          else (case parsed of
                  PDict d \<Rightarrow>
                    if dict_has d ''status_code'' \<and> dict_get d ''status_code'' = PStr ''20000''
                    then (case GirthGoalsResponse w d of
                            Inl c \<Rightarrow> (Inr None, emit (Log Error ''Failed to fetch girth goal'') s1)
                          | Inr gs \<Rightarrow>
                              (let s2 = s1\<lparr>girth_goals := Some gs\<rparr>
                               in (Inr (Some gs),
                                   s2\<lparr>last_updated_girth_goal := Some (now w s2)\<rparr>)))
                    else (Inr None, emit (Log Error ''Error fetching girth goal'') s1)
                | _ \<Rightarrow> (Inr None, emit (Log Error ''Failed to fetch girth goal'') s1)))"

text \<open>\<^verbatim>\<open>list_growth_record\<close>.\<close>

definition list_growth_record :: "world \<Rightarrow> state \<Rightarrow> (exn + pyval option) \<times> state" where
  "list_growth_record w s =
     (case request w ''GET'' (api_url w GROWTH_RECORD_URL ''last_updated_at'' s) 3 True s of
        (Inl e, s1) \<Rightarrow> (Inr None, emit (Log Error ''Failed to fetch growth record'') s1)
      | (Inr parsed, s1) \<Rightarrow>
          if \<not> truthy parsed then (Inr None, emit (Log Error ''Failed to fetch growth record.'') s1)
          else (case parsed of
                  PDict d \<Rightarrow>
                    if dict_has d ''status_code'' \<and> dict_get d ''status_code'' = PStr ''20000''
                    then (let s2 = s1\<lparr>growth_record := parsed\<rparr>
                          in (Inr (Some parsed),
                              s2\<lparr>last_updated_growth_record := Some (now w s2)\<rparr>))
                    else (Inr None, emit (Log Error ''Error fetching growth record'') s1)
                | _ \<Rightarrow> (Inr None, emit (Log Error ''Failed to fetch growth record'') s1)))"

text \<open>\<^verbatim>\<open>message_list\<close>.\<close>

definition message_list :: "world \<Rightarrow> state \<Rightarrow> (exn + pyval option) \<times> state" where
  "message_list w s =
     (case request w ''GET'' (api_url w MESSAGE_LIST_URL ''last_updated_at'' s) 3 True s of
        (Inl e, s1) \<Rightarrow> (Inr None, emit (Log Error ''Failed to fetch messages'') s1)
      | (Inr parsed, s1) \<Rightarrow>
          if \<not> truthy parsed then (Inr None, emit (Log Error ''Failed to fetch messages.'') s1)
          else (case parsed of
                  PDict d \<Rightarrow>
                    if dict_has d ''status_code'' \<and> dict_get d ''status_code'' = PStr ''20000''
                    then (Inr (Some parsed), s1)
                    else (Inr None, emit (Log Error ''Error fetching messages'') s1)
                | _ \<Rightarrow> (Inr None, emit (Log Error ''Failed to fetch messages'') s1)))"

subsection \<open>Metric accessor\<close>

definition METRIC_TYPE_WEIGHT :: string where
  "METRIC_TYPE_WEIGHT = ''weight''"

definition METRIC_TYPE_GIRTH :: string where
  "METRIC_TYPE_GIRTH = ''girth''"

definition METRIC_TYPE_GIRTH_GOAL :: string where
  "METRIC_TYPE_GIRTH_GOAL = ''girth_goals''"

text \<open>\<^verbatim>\<open>getattr(g, name, default)\<close> on a girth entry.\<close>

definition getattr_girth :: "girth \<Rightarrow> string \<Rightarrow> real option \<Rightarrow> real option" where
  "getattr_girth g name dflt = (case map_of (attrs g) name of None \<Rightarrow> dflt | Some v \<Rightarrow> v)"

text \<open>\<^verbatim>\<open>v in (None, 0.0)\<close>.\<close>

definition none_or_zero :: "real option \<Rightarrow> bool" where
  "none_or_zero v = (v = None \<or> v = Some 0)"

text \<open>
  \<^verbatim>\<open>sorted(xs, key=k, reverse=True)\<close>: descending by key, entries with equal keys in
  their original order.
\<close>

definition sorted_reverse :: "('a \<Rightarrow> int) \<Rightarrow> 'a list \<Rightarrow> 'a list" where
  "sorted_reverse k xs = sort_key (\<lambda>x. - k x) xs"

definition valid_girths :: "string \<Rightarrow> girth list \<Rightarrow> girth list" where
  "valid_girths metric gs =
     sorted_reverse time_stamp
       (filter (\<lambda>g. \<not> none_or_zero (getattr_girth g (metric @ ''_value'') (Some 0))) gs)"

text \<open>The \<^verbatim>\<open>for girth in valid_girths\<close> loop; running off its end returns \<^verbatim>\<open>None\<close>.\<close>

fun first_girth_value :: "string \<Rightarrow> girth list \<Rightarrow> pyval" where
  "first_girth_value metric [] = PNone"
| "first_girth_value metric (g # gs) =
     (case getattr_girth g (metric @ ''_value'') None of
        None \<Rightarrow> first_girth_value metric gs
      | Some v \<Rightarrow> if v = 0 then first_girth_value metric gs else PNum v)"

definition valid_goals :: "string \<Rightarrow> girth_goal list \<Rightarrow> girth_goal list" where
  "valid_goals metric gs =
     sorted_reverse setup_goal_at
       (filter (\<lambda>g. girth_type g = metric \<and> \<not> none_or_zero (goal_value g)) gs)"

fun first_goal_value :: "girth_goal list \<Rightarrow> pyval" where
  "first_goal_value [] = PNone"
| "first_goal_value (g # gs) =
     (case goal_value g of
        None \<Rightarrow> first_goal_value gs
      | Some v \<Rightarrow> if v = 0 then first_goal_value gs else PNum v)"

text \<open>
  \<^verbatim>\<open>get_specific_metric(metric_type, metric, user_id)\<close>. A truthy \<open>uid\<close> replaces the
  client's user id. A branch whose cache is empty or absent after the lazy fetch falls off
  the end of the method, which returns \<^verbatim>\<open>None\<close>. The handler of the enclosing
  \<^verbatim>\<open>try\<close> logs and returns \<^verbatim>\<open>None\<close>.
\<close>

definition get_specific_metric ::
  "world \<Rightarrow> string \<Rightarrow> string \<Rightarrow> pyval \<Rightarrow> state \<Rightarrow> (exn + pyval) \<times> state" where
  "get_specific_metric w metric_type metric uid s =
     (let s0 = (if truthy uid then s\<lparr>user_id := uid\<rparr> else s)
      in if metric_type = METRIC_TYPE_WEIGHT
         then (if last_updated_weight s0 = None \<or> truthy (weight s0)
               then (case weight_info s0 of
                       Some m \<Rightarrow> (Inr (dict_get m metric), s0)
                     | None \<Rightarrow> (Inr PNone, s0))
               else (case weight_info s0 of
                       Some m \<Rightarrow> (Inr (dict_get m metric), s0)
                     | None \<Rightarrow> (Inr PNone, s0)))
         else if metric_type = METRIC_TYPE_GIRTH
         then (case (if last_updated_girth s0 = None \<or> girth_info s0 = None
                     then list_girth w s0 else (Inr None, s0)) of
                 (Inl e, s1) \<Rightarrow> (Inr PNone, emit (Log Error ''Failed to fetch specific metric'') s1)
               | (Inr _, s1) \<Rightarrow>
                   (case girth_info s1 of
                      None \<Rightarrow> (Inr PNone, s1)
                    | Some gs \<Rightarrow>
                        if gs = [] then (Inr PNone, s1)
                        else (Inr (first_girth_value metric (valid_girths metric gs)), s1)))
         else if metric_type = METRIC_TYPE_GIRTH_GOAL
         then (case (if last_updated_girth_goal s0 = None \<or> girth_goals s0 = None
                     then list_girth_goal w s0 else (Inr None, s0)) of
                 (Inl e, s1) \<Rightarrow> (Inr PNone, emit (Log Error ''Failed to fetch specific metric'') s1)
               | (Inr _, s1) \<Rightarrow>
                   (case girth_goals s1 of
                      None \<Rightarrow> (Inr PNone, s1)
                    | Some gs \<Rightarrow>
                        if gs = [] then (Inr PNone, s1)
                        else (Inr (first_goal_value (valid_goals metric gs)), s1)))
         else (Inr PNone, emit (Log Error ''Invalid metric type'') s0))"

subsection \<open>Poller\<close>

text \<open>
  \<^verbatim>\<open>poll_data\<close>. The three fetches are awaited one after the other while the arguments
  of \<^verbatim>\<open>asyncio.gather\<close> are evaluated; \<^verbatim>\<open>gather\<close> then receives their results, none of
  which is awaitable, and raises \<^verbatim>\<open>TypeError\<close>. The handler logs every exception.
\<close>

definition poll_data :: "world \<Rightarrow> state \<Rightarrow> (exn + unit) \<times> state" where
  "poll_data w s =
     (case get_info w s of
        (Inl e, s1) \<Rightarrow> (Inr (), emit (Log Error ''Error fetching data'') s1)
      | (Inr r1, s1) \<Rightarrow>
          (case list_girth w s1 of
             (Inl e, s2) \<Rightarrow> (Inr (), emit (Log Error ''Error fetching data'') s2)
           | (Inr r2, s2) \<Rightarrow>
               (case list_girth_goal w s2 of
                  (Inl e, s3) \<Rightarrow> (Inr (), emit (Log Error ''Error fetching data'') s3)
                | (Inr r3, s3) \<Rightarrow> (Inr (), emit (Log Error ''Error fetching data'') s3))))"

text \<open>
  \<^verbatim>\<open>polling_loop\<close>, with fuel: \<open>None\<close> means that the loop is still running when the
  fuel is used up. The \<^verbatim>\<open>try\<close> encloses the \<^verbatim>\<open>while\<close> loop, so each handler is followed
  by the \<^verbatim>\<open>finally\<close> clause and the end of the coroutine. The sleep reads
  \<open>refresh_interval\<close>. \<open>sleep_cancelled w n\<close> tells whether the task is cancelled
  during the sleep that starts after \<open>n\<close> events.
\<close>

definition loop_exit :: "state \<Rightarrow> state" where
  "loop_exit s = emit (Log Info ''Polling loop exited.'') s"

fun polling_loop :: "nat \<Rightarrow> world \<Rightarrow> state \<Rightarrow> state option" where
  "polling_loop 0 w s = None"
| "polling_loop (Suc fuel) w s =
     (if \<not> is_polling_active s then Some (loop_exit s)
      else (case poll_data w s of
              (Inl e, s1) \<Rightarrow>
                Some (loop_exit (emit (Log Error ''Unexpected error in polling loop'') s1))
            | (Inr _, s1) \<Rightarrow>
                (case refresh_interval s1 of
                   None \<Rightarrow>
                     Some (loop_exit (emit (Log Error ''Unexpected error in polling loop'') s1))
                 | Some d \<Rightarrow>
                     if sleep_cancelled w (length (events s1))
                     then Some (loop_exit (emit (Log Info ''Polling task was cancelled.'')
                                             (emit (Sleep d) s1)))
                     else polling_loop fuel w (emit (Sleep d) s1))))"

section \<open>Concrete worlds and clients\<close>

text \<open>
  A world in which every probe answers 200, no sleep is cancelled, and the library calls
  are simple stand-ins; the two arguments script the sign-in and the API responses.
\<close>

definition test_world :: "(nat \<Rightarrow> http_result) \<Rightarrow> (nat \<Rightarrow> http_result) \<Rightarrow> world" where
  "test_world logins apis =
     \<lparr> proxy_results = (\<lambda>n. Status200),
       login_results = logins,
       api_results = apis,
       sleep_cancelled = (\<lambda>n. False),
       ProxyConnector_from_url = (\<lambda>u. True),
       RSA_importKey = (\<lambda>k. if take 10 k = ''-----BEGIN'' then Inr (0, 0) else Inl ''ValueError''),
       PKCS1_encrypt = (\<lambda>k pw. if length pw \<le> 117 then Inr (rev pw) else Inl ''ValueError''),
       b64encode = (\<lambda>ct. ''b64:'' @ ct),
       py_str = (\<lambda>v. case v of PStr x \<Rightarrow> x | _ \<Rightarrow> ''None''),
       get_timestamp = ''883612800'',
       time_time = (\<lambda>n. real n),
       MeasurementDetail = (\<lambda>v. case v of PDict d \<Rightarrow> Inr d | _ \<Rightarrow> Inl ''TypeError''),
       DeviceBind = (\<lambda>v. case v of PDict d \<Rightarrow> Inr d | _ \<Rightarrow> Inl ''TypeError''),
       UserResponse = (\<lambda>d. Inr d),
       GirthResponse = (\<lambda>d. Inr []),
       GirthGoalsResponse = (\<lambda>d. Inr []) \<rparr>"

definition login_ok :: "(string \<times> pyval) list" where
  "login_ok = [(''status_code'', PStr ''20000''), (''status_message'', PStr ''ok''),
               (''terminal_user_session_key'', PStr ''abc''), (''id'', PNum 42)]"

definition expired :: "(string \<times> pyval) list" where
  "expired = [(''status_code'', PStr ''40302''), (''status_message'', PStr ''Session expired'')]"

definition api_ok :: "(string \<times> pyval) list" where
  "api_ok = [(''status_code'', PStr ''20000''), (''status_message'', PStr ''ok'')]"

text \<open>Sign-in always succeeds and every API response is session-expired.\<close>

definition expired_world :: world where
  "expired_world = test_world (\<lambda>n. Body (PDict login_ok)) (\<lambda>n. Body (PDict expired))"

text \<open>Sign-in always succeeds; the first API response is session-expired, the others succeed.\<close>

definition expired_once_world :: world where
  "expired_once_world =
     test_world (\<lambda>n. Body (PDict login_ok))
       (\<lambda>n. if n = 0 then Body (PDict expired) else Body (PDict api_ok))"

text \<open>Every request fails at the transport level.\<close>

definition offline_world :: world where
  "offline_world = test_world (\<lambda>n. ClientError) (\<lambda>n. ClientError)"

text \<open>A client as the constructor leaves it, and one that already holds a token.\<close>

definition fresh_client :: state where
  "fresh_client = init ''user@example.com'' ''secret'' PNone 60 None"

definition signed_in_client :: state where
  "signed_in_client = fresh_client\<lparr>token := PStr ''abc''\<rparr>"

text \<open>A client configured without an email.\<close>

definition no_email_client :: state where
  "no_email_client = init [] ''secret'' PNone 60 None"

text \<open>A client whose public key is not a PEM key.\<close>

definition bad_key_client :: state where
  "bad_key_client = fresh_client\<lparr>public_key := Some ''not a PEM key''\<rparr>"

text \<open>
  Sign-in succeeds four times and fails at the transport level from then on; every API
  response is session-expired.
\<close>

definition flaky_login_world :: world where
  "flaky_login_world =
     test_world (\<lambda>n. if n < 4 then Body (PDict login_ok) else ClientError)
       (\<lambda>n. Body (PDict expired))"

text \<open>
  A client whose girth cache holds two entries: waist 80 at time 100 and waist 0 at time
  200.
\<close>

definition waist_client :: state where
  "waist_client =
     fresh_client\<lparr>girth_info := Some [\<lparr>time_stamp = 100, attrs = [(''waist_value'', Some 80)]\<rparr>,
                                      \<lparr>time_stamp = 200, attrs = [(''waist_value'', Some 0)]\<rparr>],
                  last_updated_girth := Some 0\<rparr>"

section \<open>Conditions used in the statements\<close>

text \<open>
  \<open>auth\<close> raises before its retry loop: the email or the password is empty, the public
  key is absent, or the encryption of the password raises.
\<close>

definition raises_before_loop :: "world \<Rightarrow> state \<Rightarrow> bool" where
  "raises_before_loop w s =
     (email s = [] \<or> password s = [] \<or>
      (case public_key s of
         None \<Rightarrow> True
       | Some k \<Rightarrow> isl (fst (encrypt_password w k (password s) (s\<lparr>auth_in_progress := True\<rparr>)))))"

text \<open>
  The sign-in response \<open>d\<close> is one that \<open>auth\<close> accepts: success status, a session key,
  and constructors of \<^verbatim>\<open>api_object\<close> that do not raise.
\<close>

definition accepted :: "world \<Rightarrow> (string \<times> pyval) list \<Rightarrow> bool" where
  "accepted w d =
     (dict_get d ''status_code'' = PStr ''20000''
      \<and> dict_get d ''status_message'' = PStr ''ok''
      \<and> dict_has d ''terminal_user_session_key''
      \<and> (case (if dict_has d ''device_binds_ary''
                then comprehension (DeviceBind w) (dict_get d ''device_binds_ary'')
                else Inr []) of
            Inl c \<Rightarrow> False
          | Inr devs \<Rightarrow>
              (case UserResponse w (dict_set d ''device_binds_ary'' (PList (map PDict devs))) of
                 Inl c \<Rightarrow> False
               | Inr ld \<Rightarrow> True)))"

text \<open>The reachability probe always passes.\<close>

definition reachable :: "world \<Rightarrow> state \<Rightarrow> bool" where
  "reachable w s =
     ((proxy_url s = [] \<or> ProxyConnector_from_url w (proxy_url s))
      \<and> (\<forall>n. proxy_results w n = Status200))"

text \<open>The checks of \<open>auth\<close> before its loop pass.\<close>

definition credentials_ready :: "world \<Rightarrow> state \<Rightarrow> bool" where
  "credentials_ready w s =
     (\<not> auth_in_progress s \<and> email s \<noteq> [] \<and> password s \<noteq> []
      \<and> (case public_key s of
            None \<Rightarrow> False
          | Some k \<Rightarrow> \<not> isl (fst (encrypt_password w k (password s) s))))"

text \<open>Every call of \<open>auth\<close> succeeds.\<close>

definition can_sign_in :: "world \<Rightarrow> state \<Rightarrow> bool" where
  "can_sign_in w s =
     (credentials_ready w s \<and> reachable w s
      \<and> (\<forall>n. case login_results w n of Body (PDict d) \<Rightarrow> accepted w d | _ \<Rightarrow> False))"

text \<open>The condition under which a round of \<open>request_loop\<close> authenticates first.\<close>

definition needs_auth :: "string \<Rightarrow> bool \<Rightarrow> state \<Rightarrow> bool" where
  "needs_auth url skip_auth s =
     ((\<not> truthy (token s) \<and> \<not> endswith url ''sign_in.json'') \<or> \<not> skip_auth)"

text \<open>Classification of an API response, and the API requests issued so far.\<close>

definition is_expired :: "http_result \<Rightarrow> bool" where
  "is_expired r =
     (case r of Body (PDict d) \<Rightarrow> dict_get d ''status_code'' = PStr ''40302'' | _ \<Rightarrow> False)"

definition is_success :: "http_result \<Rightarrow> bool" where
  "is_success r =
     (case r of
        Body (PDict d) \<Rightarrow>
          dict_get d ''status_code'' = PStr ''20000'' \<and> dict_get d ''status_message'' = PStr ''ok''
      | _ \<Rightarrow> False)"

definition api_requests :: "state \<Rightarrow> event list" where
  "api_requests s = filter is_api_request (events s)"

text \<open>What a step keeps: the attributes that decide whether the client can sign in.\<close>

definition same_account :: "state \<Rightarrow> state \<Rightarrow> bool" where
  "same_account s s' =
     (email s' = email s \<and> password s' = password s \<and> public_key s' = public_key s
      \<and> proxy s' = proxy s)"

text \<open>
  The reading of a metric in a girth entry: the value of the attribute
  \<^verbatim>\<open><metric>_value\<close> when it is present, not \<^verbatim>\<open>None\<close> and not zero.
\<close>

definition girth_reading :: "string \<Rightarrow> girth \<Rightarrow> real option" where
  "girth_reading metric g =
     (case map_of (attrs g) (metric @ ''_value'') of
        Some (Some v) \<Rightarrow> if v = 0 then None else Some v
      | _ \<Rightarrow> None)"

text \<open>
  What a fetcher owes its caller. \<open>request_succeeded p\<close>: the body \<open>p\<close> carries the success
  status; \<open>served_success w p\<close>: it is moreover one of the API responses of the world.
  \<open>absent_and_logged res s1\<close>: the fetcher returned \<^verbatim>\<open>None\<close>, and all it did to the
  state \<open>s1\<close> in which the request ended was to log an error. \<open>fetch_contract w res req\<close>,
  for the fetcher's outcome \<open>res\<close> and the outcome \<open>req\<close> of its request: the fetcher
  did not raise; it is absent-and-logged when the request raised or returned \<^verbatim>\<open>None\<close>;
  and the request returns nothing but \<^verbatim>\<open>None\<close> or a successful body that was served.
\<close>

definition request_succeeded :: "pyval \<Rightarrow> bool" where
  "request_succeeded p =
     (case p of
        PDict d \<Rightarrow>
          dict_get d ''status_code'' = PStr ''20000'' \<and> dict_get d ''status_message'' = PStr ''ok''
      | _ \<Rightarrow> False)"

definition served_success :: "world \<Rightarrow> pyval \<Rightarrow> bool" where
  "served_success w p = (request_succeeded p \<and> (\<exists>n. api_results w n = Body p))"

definition absent_and_logged :: "(exn + 'a option) \<times> state \<Rightarrow> state \<Rightarrow> bool" where
  "absent_and_logged res s1 =
     (fst res = Inr None
      \<and> (case rev (events (snd res)) of
            Log Error msg # _ \<Rightarrow> snd res = emit (Log Error msg) s1
          | _ \<Rightarrow> False))"

definition fetch_contract ::
  "world \<Rightarrow> (exn + 'a option) \<times> state \<Rightarrow> (exn + pyval) \<times> state \<Rightarrow> bool" where
  "fetch_contract w res req =
     (\<not> isl (fst res)
      \<and> (case req of
            (Inl e, s1) \<Rightarrow> absent_and_logged res s1
          | (Inr p, s1) \<Rightarrow> if p = PNone then absent_and_logged res s1 else served_success w p))"

text \<open>
  Where an exception of a request can come from when no response is to blame: the
  reachability probe at the start of the request (which raises, or fails and makes the
  request raise \<open>APIError\<close>), or a call of \<open>auth\<close> (which raises, or returns a falsy
  value and makes the request raise \<open>AuthenticationError\<close>).
\<close>

definition raised_by_probe :: "world \<Rightarrow> state \<Rightarrow> exn \<Rightarrow> bool" where
  "raised_by_probe w s e =
     (fst (check_proxy w s) = Inl e \<or> (e = APIError \<and> fst (check_proxy w s) = Inr False))"

definition raised_by_auth :: "world \<Rightarrow> exn \<Rightarrow> bool" where
  "raised_by_auth w e =
     ((\<exists>t. fst (auth w t) = Inl e)
      \<or> (e = AuthenticationError \<and> (\<exists>t v. fst (auth w t) = Inr v \<and> \<not> truthy v)))"

section \<open>Properties\<close>

subsection \<open>Auxiliary facts\<close>

lemma emit_simps [simp]:
  "events (emit e s) = events s @ [e]"
  "auth_in_progress (emit e s) = auth_in_progress s"
  "is_polling_active (emit e s) = is_polling_active s"
  "polling_task (emit e s) = polling_task s"
  "email (emit e s) = email s"
  "password (emit e s) = password s"
  "public_key (emit e s) = public_key s"
  "proxy (emit e s) = proxy s"
  "token (emit e s) = token s"
  "user_id (emit e s) = user_id s"
  "refresh_interval (emit e s) = refresh_interval s"
  "girth_info (emit e s) = girth_info s"
  "last_updated_girth (emit e s) = last_updated_girth s"
  by (simp_all add: emit_def)

lemma auth_in_progress_noop: "auth_in_progress t \<Longrightarrow> auth w t = (Inr (PBool False), t)"
  by (simp add: auth_def)

lemma auth_in_progress_iter: "auth_in_progress t \<Longrightarrow> ((\<lambda>u. snd (auth w u)) ^^ n) t = t"
  by (induction n) (simp_all add: auth_in_progress_noop)

lemma count_emit [simp]:
  "n_api (emit e s) = n_api s + (if is_api_request e then 1 else 0)"
  "n_login (emit e s) = n_login s + (if is_login_post e then 1 else 0)"
  "n_proxy (emit e s) = n_proxy s + (if is_proxy_check e then 1 else 0)"
  by (simp_all add: n_api_def n_login_def n_proxy_def)

lemma is_event_simps [simp]:
  "is_api_request (ApiRequest m u)" "\<not> is_api_request (Log l x)" "\<not> is_api_request ProxyCheck"
  "\<not> is_api_request (LoginPost a b)" "\<not> is_api_request (Sleep d)"
  "is_login_post (LoginPost a b)" "\<not> is_login_post (Log l x)" "\<not> is_login_post ProxyCheck"
  "\<not> is_login_post (ApiRequest m u)" "\<not> is_login_post (Sleep d)"
  "is_proxy_check ProxyCheck" "\<not> is_proxy_check (Log l x)" "\<not> is_proxy_check (LoginPost a b)"
  "\<not> is_proxy_check (ApiRequest m u)" "\<not> is_proxy_check (Sleep d)"
  by (simp_all add: is_api_request_def is_login_post_def is_proxy_check_def)

lemma count_update [simp]:
  "n_api (s\<lparr>token := t\<rparr>) = n_api s" "n_api (s\<lparr>auth_in_progress := b\<rparr>) = n_api s"
  "n_login (s\<lparr>token := t\<rparr>) = n_login s" "n_login (s\<lparr>auth_in_progress := b\<rparr>) = n_login s"
  "n_proxy (s\<lparr>token := t\<rparr>) = n_proxy s" "n_proxy (s\<lparr>auth_in_progress := b\<rparr>) = n_proxy s"
  by (simp_all add: n_api_def n_login_def n_proxy_def)

lemma check_proxy_reachable:
  assumes "reachable w s"
  shows "\<exists>m1 m2. check_proxy w s = (Inr True, emit (Log Info m2) (emit ProxyCheck (emit (Log Info m1) s)))"
  using assms by (auto simp: reachable_def check_proxy_def Let_def)

lemma map_of_filter_other: "k' \<noteq> k \<Longrightarrow> map_of (filter (\<lambda>kv. fst kv \<noteq> k) d) k' = map_of d k'"
  by (induction d) auto

lemma dict_get_set_other: "k' \<noteq> k \<Longrightarrow> dict_get (dict_set d k v) k' = dict_get d k'"
  by (simp add: dict_get_def dict_set_def map_of_filter_other)

lemma login_body_accepted:
  assumes "accepted w d"
  shows "\<exists>s'. login_body w d s = (Some (Inr (PBool True)), s') \<and> events s' = events s
              \<and> same_account s s' \<and> auth_in_progress s' = auth_in_progress s
              \<and> token s' = dict_get d ''terminal_user_session_key''"
proof -
  let ?devs = "if dict_has d ''device_binds_ary''
               then comprehension (DeviceBind w) (dict_get d ''device_binds_ary'') else Inr []"
  from assms obtain devs ld where
      st: "dict_get d ''status_code'' = PStr ''20000''" "dict_get d ''status_message'' = PStr ''ok''"
          "dict_has d ''terminal_user_session_key''"
      and dv: "?devs = Inr devs"
      and ur: "UserResponse w (dict_set d ''device_binds_ary'' (PList (map PDict devs))) = Inr ld"
    by (auto simp: accepted_def split: sum.splits)
  show ?thesis
    unfolding login_body_def Let_def
    by (simp add: st dv ur same_account_def dict_get_set_other)
qed

lemma auth_attempts_accepted:
  assumes "reachable w s" and "login_results w (n_login s) = Body (PDict d)" and "accepted w d"
  shows "\<exists>s'. auth_attempts w enc (Suc n) s = (Inr (PBool True), s')
              \<and> (\<exists>m1 m2. events s' = events s @ [Log Info m1, ProxyCheck, Log Info m2, LoginPost (email s) enc])
              \<and> same_account s s' \<and> \<not> auth_in_progress s'
              \<and> token s' = dict_get d ''terminal_user_session_key''"
proof -
  have r: "reachable w (s\<lparr>token := PNone\<rparr>)"
    using assms(1) by (simp add: reachable_def proxy_url_def)
  from check_proxy_reachable [OF r] obtain m1 m2 where
    cp: "check_proxy w (s\<lparr>token := PNone\<rparr>)
           = (Inr True, emit (Log Info m2) (emit ProxyCheck (emit (Log Info m1) (s\<lparr>token := PNone\<rparr>))))"
    by blast
  let ?s2 = "emit (Log Info m2) (emit ProxyCheck (emit (Log Info m1) (s\<lparr>token := PNone\<rparr>)))"
  have nl: "n_login ?s2 = n_login s"
    by simp
  from login_body_accepted [OF assms(3), of "emit (LoginPost (email ?s2) enc) ?s2"]
  obtain s4 where lb: "login_body w d (emit (LoginPost (email ?s2) enc) ?s2) = (Some (Inr (PBool True)), s4)"
      and ev: "events s4 = events (emit (LoginPost (email ?s2) enc) ?s2)"
      and sa: "same_account (emit (LoginPost (email ?s2) enc) ?s2) s4"
      and tk: "token s4 = dict_get d ''terminal_user_session_key''"
    by blast
  have "auth_attempts w enc (Suc n) s = (Inr (PBool True), s4\<lparr>auth_in_progress := False\<rparr>)"
    using lb by (simp add: cp assms(2) Let_def)
  moreover have "events (s4\<lparr>auth_in_progress := False\<rparr>)
                   = events s @ [Log Info m1, ProxyCheck, Log Info m2, LoginPost (email s) enc]"
    using ev by simp
  moreover have "same_account s (s4\<lparr>auth_in_progress := False\<rparr>)"
    using sa by (simp add: same_account_def)
  ultimately show ?thesis using tk by auto
qed

lemma encrypt_password_Inr: "fst (encrypt_password w k pw s) = Inr enc \<Longrightarrow> encrypt_password w k pw s = (Inr enc, s)"
  by (auto simp: encrypt_password_def split: sum.splits)

lemma encrypt_password_state_indep:
  "fst (encrypt_password w k pw s) = fst (encrypt_password w k pw s')"
  by (auto simp: encrypt_password_def split: sum.splits)

lemma can_sign_in_cong:
  assumes "same_account s s'" and "\<not> auth_in_progress s'" and "can_sign_in w s"
  shows "can_sign_in w s'"
proof -
  have "\<And>k. fst (encrypt_password w k (password s) s') = fst (encrypt_password w k (password s) s)"
    by (rule encrypt_password_state_indep)
  then show ?thesis
    using assms
    by (simp add: can_sign_in_def credentials_ready_def same_account_def reachable_def proxy_url_def
             split: option.splits)
qed

lemma auth_succeeds:
  assumes "can_sign_in w s"
  shows "\<exists>s'. auth w s = (Inr (PBool True), s')
              \<and> (\<exists>m1 m2 enc. events s' = events s @ [Log Info m1, ProxyCheck, Log Info m2, LoginPost (email s) enc])
              \<and> same_account s s' \<and> can_sign_in w s'"
proof -
  from assms obtain k where k: "public_key s = Some k"
      and ne: "\<not> auth_in_progress s" "email s \<noteq> []" "password s \<noteq> []"
      and en: "\<not> isl (fst (encrypt_password w k (password s) s))"
      and re: "reachable w s"
    by (auto simp: can_sign_in_def credentials_ready_def split: option.splits)
  let ?s1 = "s\<lparr>auth_in_progress := True\<rparr>"
  from en obtain enc where "fst (encrypt_password w k (password s) s) = Inr enc"
    by (cases "fst (encrypt_password w k (password s) s)") auto
  then have "fst (encrypt_password w k (password s) ?s1) = Inr enc"
    using encrypt_password_state_indep [of w k "password s" ?s1 s] by simp
  then have e1: "encrypt_password w k (password s) ?s1 = (Inr enc, ?s1)"
    by (rule encrypt_password_Inr)
  from assms have "case login_results w (n_login ?s1) of Body (PDict d) \<Rightarrow> accepted w d | _ \<Rightarrow> False"
    unfolding can_sign_in_def by blast
  then obtain d where d: "login_results w (n_login ?s1) = Body (PDict d)" "accepted w d"
    by (auto split: http_result.splits pyval.splits)
  have r1: "reachable w ?s1" using re by (simp add: reachable_def proxy_url_def)
  from auth_attempts_accepted [OF r1 d, of enc 2]
  obtain s' where a: "auth_attempts w enc 3 ?s1 = (Inr (PBool True), s')"
      and ev: "\<exists>m1 m2. events s' = events ?s1 @ [Log Info m1, ProxyCheck, Log Info m2, LoginPost (email ?s1) enc]"
      and sa: "same_account ?s1 s'" and fl: "\<not> auth_in_progress s'"
    by (auto simp: numeral_3_eq_3)
  have "auth w s = (Inr (PBool True), s')"
    by (simp add: auth_def ne k e1 a Let_def)
  moreover have sa': "same_account s s'" using sa by (simp add: same_account_def)
  moreover have "can_sign_in w s'" using can_sign_in_cong [OF sa' fl assms] .
  ultimately show ?thesis using ev by auto
qed

lemma api_requests_emit [simp]:
  "api_requests (emit e s) = api_requests s @ (if is_api_request e then [e] else [])"
  by (simp add: api_requests_def)

lemma auth_succeeds_counts:
  assumes "can_sign_in w s"
  shows "\<exists>s'. auth w s = (Inr (PBool True), s') \<and> can_sign_in w s'
              \<and> n_api s' = n_api s \<and> n_login s' = Suc (n_login s)
              \<and> api_requests s' = api_requests s"
proof -
  from auth_succeeds [OF assms] obtain s' m1 m2 enc where
      a: "auth w s = (Inr (PBool True), s')" "can_sign_in w s'"
      and ev: "events s' = events s @ [Log Info m1, ProxyCheck, Log Info m2, LoginPost (email s) enc]"
    by blast
  from ev have "n_api s' = n_api s" "n_login s' = Suc (n_login s)" "api_requests s' = api_requests s"
    by (simp_all add: n_api_def n_login_def api_requests_def)
  with a show ?thesis by blast
qed

lemma can_sign_in_emit [simp]: "can_sign_in w (emit e s) = can_sign_in w s"
  by (simp add: can_sign_in_def credentials_ready_def reachable_def proxy_url_def
                encrypt_password_def emit_def
           split: option.splits sum.splits)

text \<open>The part of a round before the request.\<close>

lemma pre_auth_succeeds:
  assumes "can_sign_in w s"
  shows "\<exists>s1. (if needs_auth url skip s
               then (case auth w s of
                       (Inl e, s1) \<Rightarrow> (Inl e, s1)
                     | (Inr auth_success, s1) \<Rightarrow>
                         if \<not> truthy auth_success then (Inl AuthenticationError, s1)
                         else (Inr (), s1))
               else (Inr (), s)) = (Inr (), s1)
              \<and> can_sign_in w s1 \<and> n_api s1 = n_api s
              \<and> n_login s1 = n_login s + (if needs_auth url skip s then 1 else 0)
              \<and> api_requests s1 = api_requests s"
proof (cases "needs_auth url skip s")
  case True
  from auth_succeeds_counts [OF assms] obtain s' where
    "auth w s = (Inr (PBool True), s')" "can_sign_in w s'" "n_api s' = n_api s"
    "n_login s' = Suc (n_login s)" "api_requests s' = api_requests s"
    by blast
  with True show ?thesis by simp
next
  case False
  with assms show ?thesis by simp
qed

lemma request_loop_expired_round:
  assumes "can_sign_in w s" and "is_expired (api_results w (n_api s))"
  shows "\<exists>s3. request_loop w m u (Suc r) skip s = request_loop w m u r False s3
              \<and> can_sign_in w s3 \<and> n_api s3 = Suc (n_api s)
              \<and> n_login s3 = n_login s + (if needs_auth u skip s then 2 else 1)
              \<and> api_requests s3 = api_requests s @ [ApiRequest m u]"
proof -
  from pre_auth_succeeds [OF assms(1), of u skip] obtain s1 where
      p: "(if needs_auth u skip s
           then (case auth w s of
                   (Inl e, s1) \<Rightarrow> (Inl e, s1)
                 | (Inr auth_success, s1) \<Rightarrow>
                     if \<not> truthy auth_success then (Inl AuthenticationError, s1)
                     else (Inr (), s1))
           else (Inr (), s)) = (Inr (), s1)"
      and c1: "can_sign_in w s1" and n1: "n_api s1 = n_api s"
      and l1: "n_login s1 = n_login s + (if needs_auth u skip s then 1 else 0)"
      and a1: "api_requests s1 = api_requests s"
    by blast
  from assms(2) obtain d where d: "api_results w (n_api s1) = Body (PDict d)"
      "dict_get d ''status_code'' = PStr ''40302''"
    by (auto simp: is_expired_def n1 split: http_result.splits pyval.splits)
  have c2: "can_sign_in w (emit (ApiRequest m u) s1)" using c1 by simp
  from auth_succeeds_counts [OF c2] obtain s3 where
      a: "auth w (emit (ApiRequest m u) s1) = (Inr (PBool True), s3)" and c3: "can_sign_in w s3"
      and n3: "n_api s3 = n_api (emit (ApiRequest m u) s1)"
      and l3: "n_login s3 = Suc (n_login (emit (ApiRequest m u) s1))"
      and a3: "api_requests s3 = api_requests (emit (ApiRequest m u) s1)"
    by blast
  have "request_loop w m u (Suc r) skip s = request_loop w m u r False s3"
    using p d a by (simp add: needs_auth_def Let_def)
  moreover have "n_api s3 = Suc (n_api s)" using n3 n1 by simp
  moreover have "n_login s3 = n_login s + (if needs_auth u skip s then 2 else 1)"
    using l3 l1 by simp
  moreover have "api_requests s3 = api_requests s @ [ApiRequest m u]"
    using a3 a1 by simp
  ultimately show ?thesis using c3 by blast
qed

lemma request_loop_success_round:
  assumes "can_sign_in w s" and "is_success (api_results w (n_api s))"
  shows "\<exists>s2. request_loop w m u (Suc r) skip s
                = (Inr (case api_results w (n_api s) of Body b \<Rightarrow> b | _ \<Rightarrow> PNone), s2)
              \<and> n_api s2 = Suc (n_api s)
              \<and> n_login s2 = n_login s + (if needs_auth u skip s then 1 else 0)
              \<and> api_requests s2 = api_requests s @ [ApiRequest m u]"
proof -
  from pre_auth_succeeds [OF assms(1), of u skip] obtain s1 where
      p: "(if needs_auth u skip s
           then (case auth w s of
                   (Inl e, s1) \<Rightarrow> (Inl e, s1)
                 | (Inr auth_success, s1) \<Rightarrow>
                     if \<not> truthy auth_success then (Inl AuthenticationError, s1)
                     else (Inr (), s1))
           else (Inr (), s)) = (Inr (), s1)"
      and n1: "n_api s1 = n_api s"
      and l1: "n_login s1 = n_login s + (if needs_auth u skip s then 1 else 0)"
      and a1: "api_requests s1 = api_requests s"
    by blast
  from assms(2) obtain d where d: "api_results w (n_api s1) = Body (PDict d)"
      "dict_get d ''status_code'' = PStr ''20000''" "dict_get d ''status_message'' = PStr ''ok''"
    by (auto simp: is_success_def n1 split: http_result.splits pyval.splits)
  have "request_loop w m u (Suc r) skip s = (Inr (PDict d), emit (ApiRequest m u) s1)"
    using p d by (simp add: needs_auth_def Let_def)
  moreover have "api_results w (n_api s) = Body (PDict d)" using d(1) n1 by simp
  ultimately show ?thesis using n1 l1 a1 by simp
qed

lemma request_loop_all_expired:
  assumes "can_sign_in w s" and "\<forall>i<r. is_expired (api_results w (n_api s + i))"
  shows "\<exists>s'. request_loop w m u r skip s = (Inr PNone, s')
              \<and> n_api s' = n_api s + r
              \<and> n_login s' = n_login s + (if r = 0 then 0 else 2 * r - (if needs_auth u skip s then 0 else 1))
              \<and> api_requests s' = api_requests s @ replicate r (ApiRequest m u)"
  using assms
proof (induction r arbitrary: skip s)
  case 0
  then show ?case by simp
next
  case (Suc r)
  from Suc.prems(2) have e0: "is_expired (api_results w (n_api s))"
    by (metis add.right_neutral zero_less_Suc)
  from request_loop_expired_round [OF Suc.prems(1) e0, of m u r skip] obtain s3 where
      st: "request_loop w m u (Suc r) skip s = request_loop w m u r False s3"
      and c3: "can_sign_in w s3" and n3: "n_api s3 = Suc (n_api s)"
      and l3: "n_login s3 = n_login s + (if needs_auth u skip s then 2 else 1)"
      and a3: "api_requests s3 = api_requests s @ [ApiRequest m u]"
    by blast
  have "\<forall>i<r. is_expired (api_results w (n_api s3 + i))"
    using Suc.prems(2) n3 by (metis Suc_less_eq add_Suc_shift)
  from Suc.IH [OF c3 this, of False] obtain s' where
      r: "request_loop w m u r False s3 = (Inr PNone, s')" and n: "n_api s' = n_api s3 + r"
      and l: "n_login s' = n_login s3 + (if r = 0 then 0 else 2 * r - (if needs_auth u False s3 then 0 else 1))"
      and a: "api_requests s' = api_requests s3 @ replicate r (ApiRequest m u)"
    by blast
  have na: "needs_auth u False s3" by (simp add: needs_auth_def)
  have "request_loop w m u (Suc r) skip s = (Inr PNone, s')" using st r by simp
  moreover have "n_api s' = n_api s + Suc r" using n n3 by simp
  moreover have "n_login s' = n_login s + (if Suc r = 0 then 0 else 2 * Suc r - (if needs_auth u skip s then 0 else 1))"
    using l l3 na by (cases "r = 0") auto
  moreover have "api_requests s' = api_requests s @ replicate (Suc r) (ApiRequest m u)"
    using a a3 by (simp add: replicate_append_same)
  ultimately show ?case by blast
qed

lemma request_loop_expired_then_success:
  assumes "can_sign_in w s" and "k < r"
      and "\<forall>i<k. is_expired (api_results w (n_api s + i))"
      and "is_success (api_results w (n_api s + k))"
  shows "\<exists>s'. request_loop w m u r skip s
                = (Inr (case api_results w (n_api s + k) of Body b \<Rightarrow> b | _ \<Rightarrow> PNone), s')
              \<and> n_api s' = n_api s + k + 1
              \<and> n_login s' = n_login s + 2 * k + (if needs_auth u skip s then 1 else 0)
              \<and> api_requests s' = api_requests s @ replicate (k + 1) (ApiRequest m u)"
  using assms
proof (induction k arbitrary: r skip s)
  case 0
  from 0(2) obtain r' where r: "r = Suc r'" by (cases r) auto
  from 0(4) have "is_success (api_results w (n_api s))" by simp
  from request_loop_success_round [OF 0(1) this, of m u r' skip]
  show ?case by (simp add: r)
next
  case (Suc k)
  from Suc.prems(2) obtain r' where r: "r = Suc r'" "k < r'" by (cases r) auto
  from Suc.prems(3) have e0: "is_expired (api_results w (n_api s))"
    by (metis add.right_neutral zero_less_Suc)
  from request_loop_expired_round [OF Suc.prems(1) e0, of m u r' skip] obtain s3 where
      st: "request_loop w m u (Suc r') skip s = request_loop w m u r' False s3"
      and c3: "can_sign_in w s3" and n3: "n_api s3 = Suc (n_api s)"
      and l3: "n_login s3 = n_login s + (if needs_auth u skip s then 2 else 1)"
      and a3: "api_requests s3 = api_requests s @ [ApiRequest m u]"
    by blast
  have e: "\<forall>i<k. is_expired (api_results w (n_api s3 + i))"
    using Suc.prems(3) n3 by (metis Suc_less_eq add_Suc_shift)
  have su: "is_success (api_results w (n_api s3 + k))"
    using Suc.prems(4) n3 by simp
  from Suc.IH [OF c3 r(2) e su, of False] obtain s' where
      rr: "request_loop w m u r' False s3
            = (Inr (case api_results w (n_api s3 + k) of Body b \<Rightarrow> b | _ \<Rightarrow> PNone), s')"
      and n: "n_api s' = n_api s3 + k + 1"
      and l: "n_login s' = n_login s3 + 2 * k + (if needs_auth u False s3 then 1 else 0)"
      and a: "api_requests s' = api_requests s3 @ replicate (k + 1) (ApiRequest m u)"
    by blast
  have na: "needs_auth u False s3" by (simp add: needs_auth_def)
  have "request_loop w m u r skip s
          = (Inr (case api_results w (n_api s + Suc k) of Body b \<Rightarrow> b | _ \<Rightarrow> PNone), s')"
    using st rr r n3 by simp
  moreover have "n_api s' = n_api s + Suc k + 1" using n n3 by simp
  moreover have "n_login s' = n_login s + 2 * Suc k + (if needs_auth u skip s then 1 else 0)"
    using l l3 na by auto
  moreover have "api_requests s' = api_requests s @ replicate (Suc k + 1) (ApiRequest m u)"
    using a a3 by (simp add: replicate_append_same)
  ultimately show ?case by blast
qed

lemma request_via_loop:
  assumes "can_sign_in w s"
  shows "\<exists>s1. request w m u r skip s = request_loop w m u r skip s1 \<and> can_sign_in w s1
              \<and> n_api s1 = n_api s \<and> n_login s1 = n_login s \<and> api_requests s1 = api_requests s
              \<and> needs_auth u skip s1 = needs_auth u skip s"
proof -
  from assms have "reachable w s" by (simp add: can_sign_in_def)
  from check_proxy_reachable [OF this] obtain m1 m2 where
    cp: "check_proxy w s = (Inr True, emit (Log Info m2) (emit ProxyCheck (emit (Log Info m1) s)))"
    by blast
  have "request w m u r skip s
          = request_loop w m u r skip (emit (Log Info m2) (emit ProxyCheck (emit (Log Info m1) s)))"
    by (simp add: request_def cp)
  moreover have "needs_auth u skip (emit (Log Info m2) (emit ProxyCheck (emit (Log Info m1) s)))
                   = needs_auth u skip s"
    by (simp add: needs_auth_def)
  ultimately show ?thesis
    using assms by (intro exI [of _ "emit (Log Info m2) (emit ProxyCheck (emit (Log Info m1) s))"]) simp
qed

lemmas run_defs =
  request_def auth_def check_proxy_def encrypt_password_def login_body_def
  test_world_def init_def fresh_client_def signed_in_client_def
  login_ok_def expired_def api_ok_def CONF_PUBLIC_KEY_def proxy_url_def
  dict_get_def dict_has_def dict_set_def endswith_def emit_def Let_def
  n_api_def n_login_def n_proxy_def is_api_request_def is_login_post_def is_proxy_check_def
  numeral_3_eq_3

lemma girth_filter_iff:
  "(\<not> none_or_zero (getattr_girth g (metric @ ''_value'') (Some 0))) = (girth_reading metric g \<noteq> None)"
  by (simp add: none_or_zero_def getattr_girth_def girth_reading_def split: option.splits)

lemma first_girth_value_Cons:
  "girth_reading metric g = Some v \<Longrightarrow> first_girth_value metric (g # gs) = PNum v"
  by (simp add: getattr_girth_def girth_reading_def split: option.splits if_splits)

lemma sorted_reverse_hd:
  assumes "xs \<noteq> []"
  shows "\<exists>x rest. sorted_reverse k xs = x # rest \<and> x \<in> set xs \<and> (\<forall>y\<in>set xs. k y \<le> k x)"
proof -
  let ?ys = "sort_key (\<lambda>x. - k x) xs"
  have ne: "?ys \<noteq> []" using assms by (metis length_sort list.size(3) length_0_conv)
  then obtain x rest where c: "?ys = x # rest" by (cases ?ys) auto
  have st: "set ?ys = set xs" by simp
  have "sorted (map (\<lambda>x. - k x) ?ys)" by (rule sorted_sort_key)
  then have "\<forall>y\<in>set rest. - k x \<le> - k y" by (simp add: c)
  then have "\<forall>y\<in>set ?ys. k y \<le> k x" by (auto simp: c)
  moreover have "x \<in> set xs" using st c by (metis list.set_intros(1))
  ultimately show ?thesis using c st unfolding sorted_reverse_def by blast
qed

lemma valid_girths_empty:
  assumes "\<forall>g\<in>set gs. girth_reading metric g = None"
  shows "valid_girths metric gs = []"
proof -
  have "filter (\<lambda>g. girth_reading metric g \<noteq> None) gs = []"
    using assms by (simp add: filter_empty_conv)
  then show ?thesis by (simp add: valid_girths_def girth_filter_iff sorted_reverse_def)
qed

lemma valid_girths_hd:
  assumes "\<exists>g\<in>set gs. girth_reading metric g \<noteq> None"
  shows "\<exists>g rest. valid_girths metric gs = g # rest \<and> g \<in> set gs \<and> girth_reading metric g \<noteq> None
                  \<and> (\<forall>h\<in>set gs. girth_reading metric h \<noteq> None \<longrightarrow> time_stamp h \<le> time_stamp g)"
proof -
  let ?fs = "filter (\<lambda>g. girth_reading metric g \<noteq> None) gs"
  have "?fs \<noteq> []" using assms by (simp add: filter_empty_conv)
  from sorted_reverse_hd [OF this, of time_stamp] obtain g rest where
    "sorted_reverse time_stamp ?fs = g # rest" "g \<in> set ?fs" "\<forall>y\<in>set ?fs. time_stamp y \<le> time_stamp g"
    by blast
  then show ?thesis by (auto simp: valid_girths_def girth_filter_iff)
qed

lemma absent_and_loggedI [simp]: "absent_and_logged (Inr None, emit (Log Error msg) s1) s1"
  by (simp add: absent_and_logged_def)

lemma request_loop_result:
  "request_loop w m u r skip s = (Inr p, s') \<Longrightarrow> p = PNone \<or> served_success w p"
proof (induction r arbitrary: skip s)
  case 0
  then show ?case by simp
next
  case (Suc r)
  then show ?case
    by (auto simp: Let_def served_success_def request_succeeded_def
             split: prod.splits sum.splits if_splits http_result.splits pyval.splits)
qed

lemma request_result:
  "request w m u r skip s = (Inr p, s') \<Longrightarrow> p = PNone \<or> served_success w p"
  by (auto simp: request_def split: prod.splits sum.splits if_splits dest: request_loop_result)

lemma get_measurements_returns: "\<not> isl (fst (get_measurements w s))"
  by (auto simp: get_measurements_def Let_def
           split: prod.splits sum.splits pyval.splits list.splits if_splits)

lemma get_device_info_returns: "\<not> isl (fst (get_device_info w s))"
  by (auto simp: get_device_info_def split: prod.splits sum.splits pyval.splits if_splits)

lemma list_girth_returns: "\<not> isl (fst (list_girth w s))"
  by (auto simp: list_girth_def split: prod.splits sum.splits pyval.splits if_splits)

lemma list_girth_goal_returns: "\<not> isl (fst (list_girth_goal w s))"
  by (auto simp: list_girth_goal_def Let_def split: prod.splits sum.splits pyval.splits if_splits)

lemma list_growth_record_returns: "\<not> isl (fst (list_growth_record w s))"
  by (auto simp: list_growth_record_def Let_def split: prod.splits sum.splits pyval.splits if_splits)

lemma message_list_returns: "\<not> isl (fst (message_list w s))"
  by (auto simp: message_list_def split: prod.splits sum.splits pyval.splits if_splits)

lemma fetch_contractI:
  assumes "\<not> isl (fst res)"
      and "\<And>e s1. req = (Inl e, s1) \<Longrightarrow> absent_and_logged res s1"
      and "\<And>s1. req = (Inr PNone, s1) \<Longrightarrow> absent_and_logged res s1"
      and "\<And>p s1. req = (Inr p, s1) \<Longrightarrow> p = PNone \<or> served_success w p"
  shows "fetch_contract w res req"
  using assms by (auto simp: fetch_contract_def split: prod.splits sum.splits)

lemma get_measurements_contract:
  "fetch_contract w (get_measurements w s)
     (request w ''GET'' (api_url w API_MEASUREMENTS_URL ''last_at'' s) 3 True s)"
  by (rule fetch_contractI)
     (simp_all add: get_measurements_returns request_result, simp_all add: get_measurements_def)

lemma get_device_info_contract:
  "fetch_contract w (get_device_info w s)
     (request w ''GET'' (api_url w DEVICE_INFO_URL ''last_updated_at'' s) 3 True s)"
  by (rule fetch_contractI)
     (simp_all add: get_device_info_returns request_result, simp_all add: get_device_info_def)

lemma list_girth_contract:
  "fetch_contract w (list_girth w s)
     (request w ''GET'' (api_url w GIRTH_URL ''last_updated_at'' s) 3 True s)"
  by (rule fetch_contractI)
     (simp_all add: list_girth_returns request_result, simp_all add: list_girth_def)

lemma list_girth_goal_contract:
  "fetch_contract w (list_girth_goal w s)
     (request w ''GET'' (api_url w GIRTH_GOAL_URL ''last_updated_at'' s) 3 True s)"
  by (rule fetch_contractI)
     (simp_all add: list_girth_goal_returns request_result, simp_all add: list_girth_goal_def)

lemma list_growth_record_contract:
  "fetch_contract w (list_growth_record w s)
     (request w ''GET'' (api_url w GROWTH_RECORD_URL ''last_updated_at'' s) 3 True s)"
  by (rule fetch_contractI)
     (simp_all add: list_growth_record_returns request_result, simp_all add: list_growth_record_def)

lemma message_list_contract:
  "fetch_contract w (message_list w s)
     (request w ''GET'' (api_url w MESSAGE_LIST_URL ''last_updated_at'' s) 3 True s)"
  by (rule fetch_contractI)
     (simp_all add: message_list_returns request_result, simp_all add: message_list_def)

lemma api_requests_update [simp]:
  "api_requests (s\<lparr>token := t\<rparr>) = api_requests s"
  "api_requests (s\<lparr>auth_in_progress := b\<rparr>) = api_requests s"
  by (simp_all add: api_requests_def)

lemma n_api_api_requests: "n_api s = length (api_requests s)"
  by (simp add: n_api_def api_requests_def)

lemma check_proxy_api_requests [simp]:
  "api_requests (snd (check_proxy w s)) = api_requests s"
  by (simp add: check_proxy_def Let_def split: proxy_result.splits)

lemma encrypt_password_api_requests [simp]:
  "api_requests (snd (encrypt_password w k pw s)) = api_requests s"
  by (simp add: encrypt_password_def split: sum.splits)

lemma login_body_api_requests [simp]:
  "api_requests (snd (login_body w d s)) = api_requests s"
  by (simp add: login_body_def Let_def api_requests_def split: sum.splits)

lemma auth_attempts_api_requests [simp]:
  "api_requests (snd (auth_attempts w enc n s)) = api_requests s"
proof (induction n arbitrary: s)
  case 0
  show ?case by simp
next
  case (Suc n)
  then show ?case
    by (simp add: split_beta Let_def
             split: sum.splits http_result.splits pyval.splits option.splits)
qed

lemma auth_api_requests [simp]: "api_requests (snd (auth w s)) = api_requests s"
  by (simp add: auth_def split_beta Let_def split: option.splits sum.splits)

text \<open>The part of a round before the request, whatever the sign-in does.\<close>

lemma pre_auth_cases:
  fixes w u skip s
  defines "pre \<equiv> (if (\<not> truthy (token s) \<and> \<not> endswith u ''sign_in.json'') \<or> \<not> skip
              then (case auth w s of
                      (Inl e, s1) \<Rightarrow> (Inl e, s1)
                    | (Inr auth_success, s1) \<Rightarrow>
                        if \<not> truthy auth_success then (Inl AuthenticationError, s1)
                        else (Inr (), s1))
              else (Inr (), s))"
  shows "api_requests (snd pre) = api_requests s
       \<and> (\<forall>e. fst pre = Inl e \<longrightarrow> raised_by_auth w e)"
proof -
  have "api_requests (snd pre) = api_requests s"
    unfolding pre_def by (simp add: split_beta split: sum.splits)
  moreover have "raised_by_auth w e" if "fst pre = Inl e" for e
  proof (cases "(\<not> truthy (token s) \<and> \<not> endswith u ''sign_in.json'') \<or> \<not> skip")
    case False
    with that show ?thesis by (simp add: pre_def)
  next
    case True
    show ?thesis
    proof (cases "fst (auth w s)")
      case (Inl a)
      with that True have "a = e"
        unfolding pre_def by (auto simp: split_beta)
      with Inl show ?thesis unfolding raised_by_auth_def by blast
    next
      case (Inr v)
      with that True have "\<not> truthy v \<and> e = AuthenticationError"
        unfolding pre_def by (auto simp: split_beta split: if_splits)
      with Inr show ?thesis unfolding raised_by_auth_def by blast
    qed
  qed
  ultimately show ?thesis by blast
qed

lemma handler_auth_cases:
  "(\<forall>e. fst (auth w t) = Inl e \<longrightarrow> raised_by_auth w e)
   \<and> (\<forall>v. fst (auth w t) = Inr v \<and> \<not> truthy v \<longrightarrow> raised_by_auth w AuthenticationError)"
  unfolding raised_by_auth_def by blast

text \<open>A round whose response is session-expired.\<close>

lemma request_loop_expired_step:
  assumes "is_expired (api_results w (n_api s))"
  shows "(\<exists>e s'. request_loop w m u (Suc r) skip s = (Inl e, s') \<and> raised_by_auth w e
                  \<and> n_api s' \<le> Suc (n_api s))
       \<or> (\<exists>s3. request_loop w m u (Suc r) skip s = request_loop w m u r False s3
                \<and> api_requests s3 = api_requests s @ [ApiRequest m u])"
proof -
  let ?pre = "if (\<not> truthy (token s) \<and> \<not> endswith u ''sign_in.json'') \<or> \<not> skip
              then (case auth w s of
                      (Inl e, s1) \<Rightarrow> (Inl e, s1)
                    | (Inr auth_success, s1) \<Rightarrow>
                        if \<not> truthy auth_success then (Inl AuthenticationError, s1)
                        else (Inr (), s1))
              else (Inr (), s)"
  from pre_auth_cases [where w = w and s = s and u = u and skip = skip]
  have pa: "api_requests (snd ?pre) = api_requests s" and pe: "\<And>e. fst ?pre = Inl e \<Longrightarrow> raised_by_auth w e"
    by blast+
  obtain x s1 where p: "?pre = (x, s1)" by (cases ?pre)
  from pa p have a1: "api_requests s1 = api_requests s" by simp
  then have n1: "n_api s1 = n_api s" by (simp add: n_api_api_requests)
  show ?thesis
  proof (cases x)
    case (Inl e)
    then have "request_loop w m u (Suc r) skip s = (Inl e, s1)"
      unfolding request_loop.simps p by simp
    moreover have "raised_by_auth w e" using pe [of e] p Inl by simp
    ultimately show ?thesis using n1 by auto
  next
    case (Inr y)
    from assms n1 obtain d where d: "api_results w (n_api s1) = Body (PDict d)"
        "dict_get d ''status_code'' = PStr ''40302''"
      by (auto simp: is_expired_def split: http_result.splits pyval.splits)
    let ?s2 = "emit (ApiRequest m u) s1"
    obtain a s3 where au: "auth w ?s2 = (a, s3)" by (cases "auth w ?s2")
    have a3: "api_requests s3 = api_requests s @ [ApiRequest m u]"
      using auth_api_requests [of w ?s2] au a1 by simp
    then have n3: "n_api s3 = Suc (n_api s)" by (simp add: n_api_api_requests)
    show ?thesis
    proof (cases a)
      case (Inl e)
      then have "request_loop w m u (Suc r) skip s = (Inl e, s3)"
        unfolding request_loop.simps p using Inr d au by (simp add: Let_def)
      moreover have "raised_by_auth w e"
        using au Inl unfolding raised_by_auth_def by (metis fst_conv)
      ultimately show ?thesis using n3 by auto
    next
      case (Inr v)
      note v = this
      show ?thesis
      proof (cases "truthy v")
        case True
        then have "request_loop w m u (Suc r) skip s = request_loop w m u r False s3"
          unfolding request_loop.simps p using \<open>x = Inr y\<close> d au v by (simp add: Let_def)
        with a3 show ?thesis by blast
      next
        case False
        then have "request_loop w m u (Suc r) skip s = (Inl AuthenticationError, s3)"
          unfolding request_loop.simps p using \<open>x = Inr y\<close> d au v by (simp add: Let_def)
        moreover have "raised_by_auth w AuthenticationError"
          using au v False unfolding raised_by_auth_def by (metis fst_conv)
        ultimately show ?thesis using n3 by auto
      qed
    qed
  qed
qed

text \<open>A round whose response is a success.\<close>

lemma request_loop_success_step:
  assumes "is_success (api_results w (n_api s))"
  shows "(\<exists>e s'. request_loop w m u (Suc r) skip s = (Inl e, s') \<and> raised_by_auth w e
                  \<and> n_api s' \<le> Suc (n_api s))
       \<or> (\<exists>s2. request_loop w m u (Suc r) skip s
                  = (Inr (case api_results w (n_api s) of Body b \<Rightarrow> b | _ \<Rightarrow> PNone), s2)
                \<and> api_requests s2 = api_requests s @ [ApiRequest m u])"
proof -
  let ?pre = "if (\<not> truthy (token s) \<and> \<not> endswith u ''sign_in.json'') \<or> \<not> skip
              then (case auth w s of
                      (Inl e, s1) \<Rightarrow> (Inl e, s1)
                    | (Inr auth_success, s1) \<Rightarrow>
                        if \<not> truthy auth_success then (Inl AuthenticationError, s1)
                        else (Inr (), s1))
              else (Inr (), s)"
  from pre_auth_cases [where w = w and s = s and u = u and skip = skip]
  have pa: "api_requests (snd ?pre) = api_requests s" and pe: "\<And>e. fst ?pre = Inl e \<Longrightarrow> raised_by_auth w e"
    by blast+
  obtain x s1 where p: "?pre = (x, s1)" by (cases ?pre)
  from pa p have a1: "api_requests s1 = api_requests s" by simp
  then have n1: "n_api s1 = n_api s" by (simp add: n_api_api_requests)
  show ?thesis
  proof (cases x)
    case (Inl e)
    then have "request_loop w m u (Suc r) skip s = (Inl e, s1)"
      unfolding request_loop.simps p by simp
    moreover have "raised_by_auth w e" using pe [of e] p Inl by simp
    ultimately show ?thesis using n1 by auto
  next
    case (Inr y)
    from assms n1 obtain d where d: "api_results w (n_api s1) = Body (PDict d)"
        "dict_get d ''status_code'' = PStr ''20000''" "dict_get d ''status_message'' = PStr ''ok''"
      by (auto simp: is_success_def split: http_result.splits pyval.splits)
    have "request_loop w m u (Suc r) skip s = (Inr (PDict d), emit (ApiRequest m u) s1)"
      unfolding request_loop.simps p using Inr d by (simp add: Let_def)
    moreover have "api_results w (n_api s) = Body (PDict d)" using d(1) n1 by simp
    ultimately show ?thesis using a1 by simp
  qed
qed

lemma request_loop_expired_any:
  assumes "\<forall>i<r. is_expired (api_results w (n_api s + i))"
  shows "(\<exists>s'. request_loop w m u r skip s = (Inr PNone, s')
               \<and> api_requests s' = api_requests s @ replicate r (ApiRequest m u))
       \<or> (\<exists>e s'. request_loop w m u r skip s = (Inl e, s') \<and> raised_by_auth w e
                  \<and> n_api s' \<le> n_api s + r)"
  using assms
proof (induction r arbitrary: skip s)
  case 0
  then show ?case by simp
next
  case (Suc r)
  from Suc.prems have e0: "is_expired (api_results w (n_api s))"
    by (metis add.right_neutral zero_less_Suc)
  from request_loop_expired_step [OF e0, of m u r skip]
  show ?case
  proof
    assume "\<exists>e s'. request_loop w m u (Suc r) skip s = (Inl e, s') \<and> raised_by_auth w e
                  \<and> n_api s' \<le> Suc (n_api s)"
    then show ?thesis by auto
  next
    assume "\<exists>s3. request_loop w m u (Suc r) skip s = request_loop w m u r False s3
                \<and> api_requests s3 = api_requests s @ [ApiRequest m u]"
    then obtain s3 where st: "request_loop w m u (Suc r) skip s = request_loop w m u r False s3"
        and a3: "api_requests s3 = api_requests s @ [ApiRequest m u]"
      by blast
    from a3 have n3: "n_api s3 = Suc (n_api s)" by (simp add: n_api_api_requests)
    have "\<forall>i<r. is_expired (api_results w (n_api s3 + i))"
      using Suc.prems n3 by (metis Suc_less_eq add_Suc_shift)
    from Suc.IH [OF this, of False]
    show ?thesis
    proof
      assume "\<exists>s'. request_loop w m u r False s3 = (Inr PNone, s')
               \<and> api_requests s' = api_requests s3 @ replicate r (ApiRequest m u)"
      then show ?thesis using st a3 by (auto simp: replicate_append_same)
    next
      assume "\<exists>e s'. request_loop w m u r False s3 = (Inl e, s') \<and> raised_by_auth w e
                  \<and> n_api s' \<le> n_api s3 + r"
      then show ?thesis using st n3 by auto
    qed
  qed
qed

lemma request_loop_expired_then_success_any:
  assumes "k < r" and "\<forall>i<k. is_expired (api_results w (n_api s + i))"
      and "is_success (api_results w (n_api s + k))"
  shows "(\<exists>s'. request_loop w m u r skip s
                 = (Inr (case api_results w (n_api s + k) of Body b \<Rightarrow> b | _ \<Rightarrow> PNone), s')
               \<and> api_requests s' = api_requests s @ replicate (k + 1) (ApiRequest m u))
       \<or> (\<exists>e s'. request_loop w m u r skip s = (Inl e, s') \<and> raised_by_auth w e
                  \<and> n_api s' \<le> n_api s + k + 1)"
  using assms
proof (induction k arbitrary: r skip s)
  case 0
  from 0(1) obtain r' where r: "r = Suc r'" by (cases r) auto
  from 0(3) have "is_success (api_results w (n_api s))" by simp
  from request_loop_success_step [OF this, of m u r' skip]
  show ?case by (auto simp: r)
next
  case (Suc k)
  from Suc.prems(1) obtain r' where r: "r = Suc r'" "k < r'" by (cases r) auto
  from Suc.prems(2) have e0: "is_expired (api_results w (n_api s))"
    by (metis add.right_neutral zero_less_Suc)
  from request_loop_expired_step [OF e0, of m u r' skip]
  show ?case
  proof
    assume "\<exists>e s'. request_loop w m u (Suc r') skip s = (Inl e, s') \<and> raised_by_auth w e
                  \<and> n_api s' \<le> Suc (n_api s)"
    then show ?thesis using r by auto
  next
    assume "\<exists>s3. request_loop w m u (Suc r') skip s = request_loop w m u r' False s3
                \<and> api_requests s3 = api_requests s @ [ApiRequest m u]"
    then obtain s3 where st: "request_loop w m u (Suc r') skip s = request_loop w m u r' False s3"
        and a3: "api_requests s3 = api_requests s @ [ApiRequest m u]"
      by blast
    from a3 have n3: "n_api s3 = Suc (n_api s)" by (simp add: n_api_api_requests)
    have e: "\<forall>i<k. is_expired (api_results w (n_api s3 + i))"
      using Suc.prems(2) n3 by (metis Suc_less_eq add_Suc_shift)
    have su: "is_success (api_results w (n_api s3 + k))"
      using Suc.prems(3) n3 by simp
    from Suc.IH [OF r(2) e su, of False]
    show ?thesis
    proof
      assume "\<exists>s'. request_loop w m u r' False s3
                 = (Inr (case api_results w (n_api s3 + k) of Body b \<Rightarrow> b | _ \<Rightarrow> PNone), s')
               \<and> api_requests s' = api_requests s3 @ replicate (k + 1) (ApiRequest m u)"
      then show ?thesis using st a3 n3 r by (auto simp: replicate_append_same)
    next
      assume "\<exists>e s'. request_loop w m u r' False s3 = (Inl e, s') \<and> raised_by_auth w e
                  \<and> n_api s' \<le> n_api s3 + k + 1"
      then show ?thesis using st n3 r by auto
    qed
  qed
qed

lemma request_cases:
  "(\<exists>e s1. request w m u r skip s = (Inl e, s1) \<and> raised_by_probe w s e
             \<and> api_requests s1 = api_requests s)
   \<or> (\<exists>s1. request w m u r skip s = request_loop w m u r skip s1
             \<and> api_requests s1 = api_requests s)"
proof -
  obtain a s1 where c: "check_proxy w s = (a, s1)" by (cases "check_proxy w s")
  have a1: "api_requests s1 = api_requests s"
    using check_proxy_api_requests [of w s] c by simp
  show ?thesis
  proof (cases a)
    case (Inl e)
    then have "request w m u r skip s = (Inl e, s1)" by (simp add: request_def c)
    moreover have "raised_by_probe w s e" by (simp add: raised_by_probe_def c Inl)
    ultimately show ?thesis using a1 by blast
  next
    case (Inr ok)
    show ?thesis
    proof (cases ok)
      case True
      then have "request w m u r skip s = request_loop w m u r skip s1"
        by (simp add: request_def c Inr)
      with a1 show ?thesis by blast
    next
      case False
      then have "request w m u r skip s
                   = (Inl APIError, emit (Log Error ''Proxy check failed. Aborting authentication.'') s1)"
        by (simp add: request_def c Inr)
      moreover have "raised_by_probe w s APIError" by (simp add: raised_by_probe_def c Inr False)
      ultimately show ?thesis using a1 by (intro disjI1) auto
    qed
  qed
qed

text \<open>General statements at the level of \<open>request\<close>.\<close>

lemma request_expired_any:
  assumes "\<forall>i<r. is_expired (api_results w (n_api s + i))"
  shows "(\<forall>p. fst (request w m u r skip s) = Inr p \<longrightarrow>
            p = PNone
            \<and> api_requests (snd (request w m u r skip s)) = api_requests s @ replicate r (ApiRequest m u))
       \<and> (\<forall>e. fst (request w m u r skip s) = Inl e \<longrightarrow>
            (raised_by_probe w s e \<or> raised_by_auth w e)
            \<and> n_api (snd (request w m u r skip s)) \<le> n_api s + r)"
proof -
  from request_cases [of w m u r skip s]
  show ?thesis
  proof
    assume "\<exists>e s1. request w m u r skip s = (Inl e, s1) \<and> raised_by_probe w s e
             \<and> api_requests s1 = api_requests s"
    then show ?thesis by (auto simp: n_api_api_requests)
  next
    assume "\<exists>s1. request w m u r skip s = request_loop w m u r skip s1
             \<and> api_requests s1 = api_requests s"
    then obtain s1 where a: "request w m u r skip s = request_loop w m u r skip s1"
        "api_requests s1 = api_requests s"
      by blast
    then have n: "n_api s1 = n_api s" by (simp add: n_api_api_requests)
    from request_loop_expired_any [of r w s1 m u skip] assms n a
    show ?thesis by auto
  qed
qed

lemma request_expired_then_success_any:
  assumes "k < r" and "\<forall>i<k. is_expired (api_results w (n_api s + i))"
      and "is_success (api_results w (n_api s + k))"
  shows "(\<forall>p. fst (request w m u r skip s) = Inr p \<longrightarrow>
            Body p = api_results w (n_api s + k)
            \<and> api_requests (snd (request w m u r skip s))
                = api_requests s @ replicate (k + 1) (ApiRequest m u))
       \<and> (\<forall>e. fst (request w m u r skip s) = Inl e \<longrightarrow>
            (raised_by_probe w s e \<or> raised_by_auth w e)
            \<and> n_api (snd (request w m u r skip s)) \<le> n_api s + k + 1)"
proof -
  from assms(3) obtain b where b: "api_results w (n_api s + k) = Body b"
    by (auto simp: is_success_def split: http_result.splits)
  from request_cases [of w m u r skip s]
  show ?thesis
  proof
    assume "\<exists>e s1. request w m u r skip s = (Inl e, s1) \<and> raised_by_probe w s e
             \<and> api_requests s1 = api_requests s"
    then show ?thesis by (auto simp: n_api_api_requests)
  next
    assume "\<exists>s1. request w m u r skip s = request_loop w m u r skip s1
             \<and> api_requests s1 = api_requests s"
    then obtain s1 where a: "request w m u r skip s = request_loop w m u r skip s1"
        "api_requests s1 = api_requests s"
      by blast
    then have n: "n_api s1 = n_api s" by (simp add: n_api_api_requests)
    from request_loop_expired_then_success_any [of k r w s1 m u skip] assms n a b
    show ?thesis by auto
  qed
qed

text \<open>A run in which the sign-in after the third expired response fails.\<close>

lemma flaky_run:
  "fst (request flaky_login_world ''GET'' ''u'' 3 True signed_in_client) = Inl AuthenticationError
   \<and> n_api (snd (request flaky_login_world ''GET'' ''u'' 3 True signed_in_client)) = 3"
  by (simp add: flaky_login_world_def run_defs)


text \<open>No operation touches the poller's attributes.\<close>

lemma check_proxy_poller [simp]:
  "refresh_interval (snd (check_proxy w s)) = refresh_interval s"
  "is_polling_active (snd (check_proxy w s)) = is_polling_active s"
  by (simp_all add: check_proxy_def Let_def split: proxy_result.splits)

lemma encrypt_password_poller [simp]:
  "refresh_interval (snd (encrypt_password w k pw s)) = refresh_interval s"
  "is_polling_active (snd (encrypt_password w k pw s)) = is_polling_active s"
  by (simp_all add: encrypt_password_def split: sum.splits)

lemma login_body_poller [simp]:
  "refresh_interval (snd (login_body w d s)) = refresh_interval s"
  "is_polling_active (snd (login_body w d s)) = is_polling_active s"
  by (simp_all add: login_body_def Let_def split: sum.splits)

lemma auth_attempts_poller [simp]:
  "refresh_interval (snd (auth_attempts w enc n s)) = refresh_interval s
   \<and> is_polling_active (snd (auth_attempts w enc n s)) = is_polling_active s"
proof (induction n arbitrary: s)
  case 0
  show ?case by simp
next
  case (Suc n)
  then show ?case
    by (simp add: split_beta Let_def
             split: sum.splits http_result.splits pyval.splits option.splits)
qed

lemma auth_poller [simp]:
  "refresh_interval (snd (auth w s)) = refresh_interval s"
  "is_polling_active (snd (auth w s)) = is_polling_active s"
  by (simp_all add: auth_def split_beta Let_def split: option.splits sum.splits)

lemma request_loop_poller [simp]:
  "refresh_interval (snd (request_loop w m u r skip s)) = refresh_interval s
   \<and> is_polling_active (snd (request_loop w m u r skip s)) = is_polling_active s"
proof (induction r arbitrary: skip s)
  case 0
  show ?case by simp
next
  case (Suc r)
  let ?pre = "if (\<not> truthy (token s) \<and> \<not> endswith u ''sign_in.json'') \<or> \<not> skip
              then (case auth w s of
                      (Inl e, s1) \<Rightarrow> (Inl e, s1)
                    | (Inr auth_success, s1) \<Rightarrow>
                        if \<not> truthy auth_success then (Inl AuthenticationError, s1)
                        else (Inr (), s1))
              else (Inr (), s)"
  have pre: "refresh_interval (snd ?pre) = refresh_interval s
             \<and> is_polling_active (snd ?pre) = is_polling_active s"
    by (simp add: split_beta split: sum.splits)
  obtain x s1 where p: "?pre = (x, s1)" by (cases ?pre)
  from pre p have s1: "refresh_interval s1 = refresh_interval s" "is_polling_active s1 = is_polling_active s"
    by simp_all
  show ?case
    unfolding request_loop.simps p
    by (simp add: split_beta Let_def s1 Suc split: sum.splits http_result.splits pyval.splits)
qed

lemma request_poller [simp]:
  "refresh_interval (snd (request w m u r skip s)) = refresh_interval s"
  "is_polling_active (snd (request w m u r skip s)) = is_polling_active s"
  by (simp_all add: request_def split_beta split: sum.splits)

lemma get_measurements_poller [simp]:
  "refresh_interval (snd (get_measurements w s)) = refresh_interval s"
  "is_polling_active (snd (get_measurements w s)) = is_polling_active s"
  by (simp_all add: get_measurements_def split_beta Let_def
               split: sum.splits pyval.splits list.splits)

lemma get_info_poller [simp]:
  "refresh_interval (snd (get_info w s)) = refresh_interval s"
  "is_polling_active (snd (get_info w s)) = is_polling_active s"
  by (simp_all add: get_info_def)

lemma list_girth_poller [simp]:
  "refresh_interval (snd (list_girth w s)) = refresh_interval s"
  "is_polling_active (snd (list_girth w s)) = is_polling_active s"
  by (simp_all add: list_girth_def split_beta split: sum.splits pyval.splits)

lemma list_girth_goal_poller [simp]:
  "refresh_interval (snd (list_girth_goal w s)) = refresh_interval s"
  "is_polling_active (snd (list_girth_goal w s)) = is_polling_active s"
  by (simp_all add: list_girth_goal_def split_beta Let_def split: sum.splits pyval.splits)

lemma poll_data_returns: "fst (poll_data w s) = Inr ()"
  by (simp add: poll_data_def split_beta split: sum.splits)

lemma poll_data_poller [simp]:
  "refresh_interval (snd (poll_data w s)) = refresh_interval s"
  "is_polling_active (snd (poll_data w s)) = is_polling_active s"
  by (simp_all add: poll_data_def split_beta split: sum.splits)

text \<open>One cycle: the three fetches in order, each returning, then the log entry.\<close>

lemma poll_data_cycle:
  "\<exists>r1 s1 r2 s2 r3 s3.
      get_info w s = (Inr r1, s1) \<and> list_girth w s1 = (Inr r2, s2)
      \<and> list_girth_goal w s2 = (Inr r3, s3)
      \<and> poll_data w s = (Inr (), emit (Log Error ''Error fetching data'') s3)"
proof -
  obtain a s1 where 1: "get_info w s = (a, s1)" by (cases "get_info w s")
  obtain b s2 where 2: "list_girth w s1 = (b, s2)" by (cases "list_girth w s1")
  obtain c s3 where 3: "list_girth_goal w s2 = (c, s3)" by (cases "list_girth_goal w s2")
  from 1 get_measurements_returns [of w "s\<lparr>last_updated_weight := Some (now w s)\<rparr>"]
  obtain r1 where a: "a = Inr r1" by (cases a) (auto simp: get_info_def)
  from 2 list_girth_returns [of w s1] obtain r2 where b: "b = Inr r2" by (cases b) auto
  from 3 list_girth_goal_returns [of w s2] obtain r3 where c: "c = Inr r3" by (cases c) auto
  show ?thesis using 1 2 3 a b c by (simp add: poll_data_def)
qed

lemma polling_loop_continues:
  assumes "is_polling_active s" and "refresh_interval s = Some d"
      and "\<not> sleep_cancelled w (length (events (snd (poll_data w s))))"
  shows "polling_loop (Suc fuel) w s = polling_loop fuel w (emit (Sleep d) (snd (poll_data w s)))"
  using assms poll_data_returns [of w s] by (simp add: split_beta)

lemma polling_loop_unset_interval:
  assumes "is_polling_active s" and "refresh_interval s = None"
  shows "polling_loop (Suc fuel) w s
           = Some (loop_exit (emit (Log Error ''Unexpected error in polling loop'')
                                (snd (poll_data w s))))"
  using assms poll_data_returns [of w s] by (simp add: split_beta)

subsection \<open>Poller switches\<close>

text \<open>
  Claim C8. Stopping a poller that is not active changes nothing in the client but the
  log, which receives a warning; starting a poller that is active likewise only logs a
  warning. In both cases \<open>is_polling_active\<close> and \<open>polling_task\<close> keep their values.
\<close>

theorem poller_noop:
  assumes "\<not> is_polling_active s" and "is_polling_active t"
  shows "stop_polling s = (Inr (), s\<lparr>events := events s @ [Log Warning ''Polling is not active.'']\<rparr>)
       \<and> start_polling t = t\<lparr>events := events t @ [Log Warning ''Polling is already active.'']\<rparr>"
  using assms by (simp add: stop_polling_def start_polling_def emit_def)

theorem poller_noop_witness:
  "\<not> is_polling_active fresh_client
   \<and> is_polling_active (start_polling fresh_client)
   \<and> \<not> is_polling_active (snd (stop_polling fresh_client))
   \<and> polling_task (snd (stop_polling fresh_client)) = Unset
   \<and> is_polling_active (start_polling (start_polling fresh_client))
   \<and> polling_task (start_polling (start_polling fresh_client)) = Task"
proof -
  have a: "\<not> is_polling_active fresh_client"
    by (simp add: fresh_client_def init_def)
  have b: "is_polling_active (start_polling fresh_client)"
    by (simp add: fresh_client_def init_def start_polling_def)
  show ?thesis
    using a b poller_noop [OF a b]
    by (simp add: fresh_client_def init_def start_polling_def emit_def)
qed

subsection \<open>Authentication guards\<close>

text \<open>
  Claim C4: every call of \<open>auth\<close> with an empty email or an empty password fails with
  \<open>AuthenticationError\<close> and performs no network request. On a client as the
  constructor builds it without an email, or without a password, the first call does
  so, in every world. But it raises after having set the in-progress flag and outside
  the \<^verbatim>\<open>try ... finally\<close> that clears it, so the second call on the same client, still
  without its credential and with no other call running, meets the guard
  (\<^verbatim>\<open>Avoid re-entry if already in progress\<close>) and returns \<^verbatim>\<open>False\<close> instead of raising
  \<open>AuthenticationError\<close>. Neither call touches the network or the log.
\<close>

theorem auth_empty_credentials_second_call:
  "fst (auth w (init [] pw uid rf px)) = Inl AuthenticationError
   \<and> fst (auth w (init em [] uid rf px)) = Inl AuthenticationError
   \<and> events (snd (auth w (init [] pw uid rf px))) = events (init [] pw uid rf px)
   \<and> events (snd (auth w (init em [] uid rf px))) = events (init em [] uid rf px)
   \<and> email (snd (auth w (init [] pw uid rf px))) = []
   \<and> password (snd (auth w (init em [] uid rf px))) = []
   \<and> auth w' (snd (auth w (init [] pw uid rf px)))
       = (Inr (PBool False), snd (auth w (init [] pw uid rf px)))
   \<and> auth w' (snd (auth w (init em [] uid rf px)))
       = (Inr (PBool False), snd (auth w (init em [] uid rf px)))"
  by (simp add: auth_def init_def Let_def)

text \<open>
  Claim C9. When \<open>auth\<close> raises before its retry loop (empty email or password, absent
  public key, failing encryption) on a client whose in-progress flag was clear, the flag
  stays set and no network request has been made; from then on every call of \<open>auth\<close>,
  in any world and after any number of earlier such calls, returns \<^verbatim>\<open>False\<close> and
  leaves the client as it is, so it neither raises nor touches the network.
\<close>

theorem auth_flag_stuck:
  assumes "\<not> auth_in_progress s" and "raises_before_loop w s"
  shows "isl (fst (auth w s))
       \<and> auth_in_progress (snd (auth w s))
       \<and> filter is_network (events (snd (auth w s))) = filter is_network (events s)
       \<and> (\<forall>w' n. auth w' (((\<lambda>u. snd (auth w' u)) ^^ n) (snd (auth w s)))
                    = (Inr (PBool False), snd (auth w s)))"
proof -
  have r: "isl (fst (auth w s)) \<and> auth_in_progress (snd (auth w s))
           \<and> filter is_network (events (snd (auth w s))) = filter is_network (events s)"
    using assms
    by (auto simp: auth_def raises_before_loop_def Let_def encrypt_password_def is_network_def
                   is_proxy_check_def is_login_post_def is_api_request_def
             split: option.splits sum.splits prod.splits)
  then show ?thesis
    by (simp add: auth_in_progress_iter auth_in_progress_noop)
qed

theorem auth_flag_stuck_witness:
  "\<not> auth_in_progress no_email_client \<and> raises_before_loop expired_world no_email_client
   \<and> \<not> auth_in_progress bad_key_client \<and> raises_before_loop expired_world bad_key_client
   \<and> fst (auth expired_world no_email_client) = Inl AuthenticationError
   \<and> fst (auth expired_world bad_key_client) = Inl (Other ''ValueError'')
   \<and> auth expired_world (snd (auth expired_world bad_key_client))
       = (Inr (PBool False), snd (auth expired_world bad_key_client))
   \<and> auth expired_world (snd (auth expired_world (snd (auth expired_world no_email_client))))
       = (Inr (PBool False), snd (auth expired_world no_email_client))"
proof -
  have a: "\<not> auth_in_progress no_email_client"
    by (simp add: no_email_client_def init_def)
  have b: "raises_before_loop expired_world no_email_client"
    by (simp add: raises_before_loop_def no_email_client_def init_def)
  have c: "\<not> auth_in_progress bad_key_client"
    by (simp add: bad_key_client_def fresh_client_def init_def)
  have d: "raises_before_loop expired_world bad_key_client"
    by (simp add: raises_before_loop_def bad_key_client_def fresh_client_def init_def
                  encrypt_password_def expired_world_def test_world_def)
  have e: "fst (auth expired_world no_email_client) = Inl AuthenticationError"
    by (simp add: auth_def no_email_client_def init_def)
  have f: "fst (auth expired_world bad_key_client) = Inl (Other ''ValueError'')"
    by (simp add: auth_def bad_key_client_def fresh_client_def init_def
                  encrypt_password_def expired_world_def test_world_def)
  from auth_flag_stuck [OF a b]
  have g: "auth expired_world (((\<lambda>u. snd (auth expired_world u)) ^^ 1) (snd (auth expired_world no_email_client)))
        = (Inr (PBool False), snd (auth expired_world no_email_client))"
    by blast
  from auth_flag_stuck [OF c d]
  have h: "auth expired_world (((\<lambda>u. snd (auth expired_world u)) ^^ 0) (snd (auth expired_world bad_key_client)))
        = (Inr (PBool False), snd (auth expired_world bad_key_client))"
    by blast
  show ?thesis using a b c d e f g h by simp
qed

subsection \<open>Credential encryption\<close>

text \<open>
  Claim C7, as stated: a malformed key makes the encryptor fail with an
  \<open>EncryptionError\<close>. The module has no such class, and the handler re-raises what the
  library raised: with a key that the library rejects with \<^verbatim>\<open>ValueError\<close>, the
  encryptor raises \<^verbatim>\<open>ValueError\<close>.
\<close>

theorem encrypt_password_counterexample:
  "fst (encrypt_password expired_world ''not a PEM key'' ''secret'' fresh_client) = Inl (Other ''ValueError'')
   \<and> fst (encrypt_password expired_world ''not a PEM key'' ''secret'' fresh_client) \<noteq> Inl (Other ''EncryptionError'')"
  by (simp add: encrypt_password_def expired_world_def test_world_def)

text \<open>
  Claim C7, amended. When the key import or the encryption raises, the encryptor logs
  and raises that same exception; when it returns, the result is the base64 encoding of
  a ciphertext that the library produced, and nothing is logged. An encryption failure
  inside \<open>auth\<close> ends \<open>auth\<close> with that exception before any network request.
\<close>

theorem encrypt_password_outcomes:
  "(\<forall>c. RSA_importKey w k = Inl c \<longrightarrow>
        encrypt_password w k pw s = (Inl (Other c), emit (Log Error ''Encryption error'') s))
   \<and> (\<forall>key c. RSA_importKey w k = Inr key \<and> PKCS1_encrypt w key pw = Inl c \<longrightarrow>
        encrypt_password w k pw s = (Inl (Other c), emit (Log Error ''Encryption error'') s))
   \<and> (\<forall>enc s'. encrypt_password w k pw s = (Inr enc, s') \<longrightarrow>
        s' = s \<and> (\<exists>key ct. RSA_importKey w k = Inr key \<and> PKCS1_encrypt w key pw = Inr ct
                          \<and> enc = b64encode w ct))
   \<and> (\<forall>e s'. \<not> auth_in_progress s \<and> email s \<noteq> [] \<and> password s \<noteq> [] \<and> public_key s = Some k
             \<and> encrypt_password w k (password s) (s\<lparr>auth_in_progress := True\<rparr>) = (Inl e, s') \<longrightarrow>
        auth w s = (Inl e, s')
        \<and> filter is_network (events s') = filter is_network (events s))"
  by (auto simp: encrypt_password_def auth_def Let_def is_network_def
                 is_proxy_check_def is_login_post_def is_api_request_def
           split: sum.splits prod.splits)

theorem encrypt_password_outcomes_witness:
  "RSA_importKey expired_world ''not a PEM key'' = Inl ''ValueError''
   \<and> fst (encrypt_password expired_world ''not a PEM key'' ''secret'' fresh_client) = Inl (Other ''ValueError'')
   \<and> RSA_importKey expired_world CONF_PUBLIC_KEY = Inr (0, 0)
   \<and> PKCS1_encrypt expired_world (0, 0) (replicate 118 CHR ''x'') = Inl ''ValueError''
   \<and> fst (encrypt_password expired_world CONF_PUBLIC_KEY (replicate 118 CHR ''x'') fresh_client)
       = Inl (Other ''ValueError'')
   \<and> encrypt_password expired_world CONF_PUBLIC_KEY ''secret'' fresh_client
       = (Inr (b64encode expired_world ''terces''), fresh_client)
   \<and> fst (auth expired_world bad_key_client) = Inl (Other ''ValueError'')
   \<and> filter is_network (events (snd (auth expired_world bad_key_client))) = []"
proof -
  let ?w = expired_world
  have a: "RSA_importKey ?w ''not a PEM key'' = Inl ''ValueError''"
    by (simp add: expired_world_def test_world_def)
  have b: "RSA_importKey ?w CONF_PUBLIC_KEY = Inr (0, 0)"
    by (simp add: expired_world_def test_world_def CONF_PUBLIC_KEY_def)
  have c: "PKCS1_encrypt ?w (0, 0) (replicate 118 CHR ''x'') = Inl ''ValueError''"
    by (simp add: expired_world_def test_world_def)
  have d: "encrypt_password ?w CONF_PUBLIC_KEY ''secret'' fresh_client
             = (Inr (b64encode ?w ''terces''), fresh_client)"
    by (simp add: encrypt_password_def expired_world_def test_world_def CONF_PUBLIC_KEY_def)
  have e: "\<not> auth_in_progress bad_key_client \<and> email bad_key_client \<noteq> []
           \<and> password bad_key_client \<noteq> [] \<and> public_key bad_key_client = Some ''not a PEM key''"
    by (simp add: bad_key_client_def fresh_client_def init_def)
  have f: "encrypt_password ?w ''not a PEM key'' (password bad_key_client)
             (bad_key_client\<lparr>auth_in_progress := True\<rparr>)
           = (Inl (Other ''ValueError''),
              emit (Log Error ''Encryption error'') (bad_key_client\<lparr>auth_in_progress := True\<rparr>))"
    by (simp add: encrypt_password_def expired_world_def test_world_def)
  have g: "filter is_network (events bad_key_client) = []"
    by (simp add: bad_key_client_def fresh_client_def init_def is_network_def
                  is_proxy_check_def is_login_post_def is_api_request_def)
  note t1 = encrypt_password_outcomes [of ?w "''not a PEM key''" "''secret''" fresh_client]
  note t2 = encrypt_password_outcomes [of ?w CONF_PUBLIC_KEY "replicate 118 CHR ''x''" fresh_client]
  note t3 = encrypt_password_outcomes [of ?w CONF_PUBLIC_KEY "''secret''" fresh_client]
  note t4 = encrypt_password_outcomes [of ?w "''not a PEM key''" "password bad_key_client" bad_key_client]
  have h1: "fst (encrypt_password ?w ''not a PEM key'' ''secret'' fresh_client) = Inl (Other ''ValueError'')"
    using t1 a by simp
  have h2: "fst (encrypt_password ?w CONF_PUBLIC_KEY (replicate 118 CHR ''x'') fresh_client)
              = Inl (Other ''ValueError'')"
    using t2 b c by simp
  have h4: "auth ?w bad_key_client
              = (Inl (Other ''ValueError''),
                 emit (Log Error ''Encryption error'') (bad_key_client\<lparr>auth_in_progress := True\<rparr>))
            \<and> filter is_network (events (emit (Log Error ''Encryption error'')
                 (bad_key_client\<lparr>auth_in_progress := True\<rparr>))) = filter is_network (events bad_key_client)"
    using t4 e f by blast
  show ?thesis using a b c d h1 h2 h4 g t3 by simp
qed

subsection \<open>Retry on session expiry\<close>







subsection \<open>Sign-in\<close>

text \<open>
  Claim C5. A client with credentials, a usable key and no user id signs in, the probe
  passes, and the sign-in response is the payload with status code 20000, message ok,
  session key abc and id 42. Then \<open>auth\<close> returns \<^verbatim>\<open>True\<close>, the token is abc, and the
  user id is the 42 of the login data. \<^verbatim>\<open>UserResponse\<close> is a parameter: it is assumed to
  accept the payload and to keep its id.
\<close>

theorem auth_adopts_login_id:
  assumes "credentials_ready w s" and "reachable w s"
      and "login_results w (n_login s) = Body (PDict login_ok)"
      and "UserResponse w (dict_set login_ok ''device_binds_ary'' (PList [])) = Inr ld"
      and "dict_get ld ''id'' = PNum 42"
      and "user_id s = PNone"
  shows "fst (auth w s) = Inr (PBool True)
       \<and> token (snd (auth w s)) = PStr ''abc''
       \<and> user_id (snd (auth w s)) = PNum 42
       \<and> login_data (snd (auth w s)) = Some ld"
proof -
  from assms(1) obtain k where k: "public_key s = Some k"
      and ne: "\<not> auth_in_progress s" "email s \<noteq> []" "password s \<noteq> []"
      and en: "\<not> isl (fst (encrypt_password w k (password s) s))"
    by (auto simp: credentials_ready_def split: option.splits)
  let ?s1 = "s\<lparr>auth_in_progress := True\<rparr>"
  from en obtain enc where "fst (encrypt_password w k (password s) s) = Inr enc"
    by (cases "fst (encrypt_password w k (password s) s)") auto
  then have "fst (encrypt_password w k (password s) ?s1) = Inr enc"
    using encrypt_password_state_indep [of w k "password s" ?s1 s] by simp
  then have e1: "encrypt_password w k (password s) ?s1 = (Inr enc, ?s1)"
    by (rule encrypt_password_Inr)
  have r: "reachable w (?s1\<lparr>token := PNone\<rparr>)"
    using assms(2) by (simp add: reachable_def proxy_url_def)
  from check_proxy_reachable [OF r] obtain m1 m2 where
    cp: "check_proxy w (?s1\<lparr>token := PNone\<rparr>)
           = (Inr True, emit (Log Info m2) (emit ProxyCheck (emit (Log Info m1) (?s1\<lparr>token := PNone\<rparr>))))"
    by blast
  have dh: "\<not> dict_has login_ok ''device_binds_ary''" "dict_has login_ok ''terminal_user_session_key''"
    by (simp_all add: dict_has_def login_ok_def)
  have dg: "dict_get login_ok ''status_code'' = PStr ''20000''"
           "dict_get login_ok ''status_message'' = PStr ''ok''"
           "dict_get login_ok ''terminal_user_session_key'' = PStr ''abc''"
    by (simp_all add: dict_get_def login_ok_def)
  have lb: "\<And>t. user_id t = PNone \<Longrightarrow> login_body w login_ok t
          = (Some (Inr (PBool True)), t\<lparr>token := PStr ''abc'', login_data := Some ld, user_id := PNum 42\<rparr>)"
    unfolding login_body_def Let_def
    by (simp add: dh dg assms(4,5) dict_get_set_other)
  have uid: "user_id (emit (LoginPost (email s) enc)
               (emit (Log Info m2) (emit ProxyCheck (emit (Log Info m1) (s\<lparr>auth_in_progress := True, token := PNone\<rparr>)))))
             = PNone"
    using assms(6) by simp
  have "auth w s = (Inr (PBool True),
          (emit (LoginPost (email s) enc)
               (emit (Log Info m2) (emit ProxyCheck (emit (Log Info m1) (s\<lparr>auth_in_progress := True, token := PNone\<rparr>)))))
            \<lparr>token := PStr ''abc'', login_data := Some ld, user_id := PNum 42, auth_in_progress := False\<rparr>)"
    using cp assms(3) lb [OF uid]
    by (simp add: auth_def ne k e1 Let_def numeral_3_eq_3)
  then show ?thesis by simp
qed

theorem auth_adopts_login_id_witness:
  "credentials_ready expired_world fresh_client \<and> reachable expired_world fresh_client
   \<and> user_id fresh_client = PNone
   \<and> login_results expired_world (n_login fresh_client) = Body (PDict login_ok)
   \<and> fst (auth expired_world fresh_client) = Inr (PBool True)
   \<and> token (snd (auth expired_world fresh_client)) = PStr ''abc''
   \<and> user_id (snd (auth expired_world fresh_client)) = PNum 42"
proof -
  let ?w = expired_world and ?s = fresh_client
  have a: "credentials_ready ?w ?s"
    by (simp add: credentials_ready_def expired_world_def run_defs)
  have b: "reachable ?w ?s"
    by (simp add: reachable_def expired_world_def run_defs)
  have c: "login_results ?w (n_login ?s) = Body (PDict login_ok)"
    by (simp add: expired_world_def test_world_def)
  have d: "UserResponse ?w (dict_set login_ok ''device_binds_ary'' (PList []))
             = Inr (dict_set login_ok ''device_binds_ary'' (PList []))"
    by (simp add: expired_world_def test_world_def)
  have e: "dict_get (dict_set login_ok ''device_binds_ary'' (PList [])) ''id'' = PNum 42"
    by (simp add: dict_get_def dict_set_def login_ok_def)
  have f: "user_id ?s = PNone"
    by (simp add: fresh_client_def init_def)
  show ?thesis
    using a b c f auth_adopts_login_id [OF a b c d e f] by simp
qed

subsection \<open>Metric accessor\<close>

text \<open>
  Claim C1. With a girth cache in place, \<open>get_specific_metric\<close> for the category
  \<^verbatim>\<open>"girth"\<close> fetches nothing and changes nothing but the user id it was given; it
  returns \<^verbatim>\<open>None\<close> when no cached entry has a reading of the metric, and otherwise the
  reading of an entry whose timestamp is the maximum among the entries that have one.
  With waist 80 at time 100 and waist 0 at time 200 it returns 80.
\<close>

theorem girth_metric_latest:
  assumes "last_updated_girth s \<noteq> None" and "girth_info s = Some gs"
  shows "snd (get_specific_metric w ''girth'' metric uid s) = (if truthy uid then s\<lparr>user_id := uid\<rparr> else s)
       \<and> ((\<forall>g\<in>set gs. girth_reading metric g = None) \<longrightarrow>
            fst (get_specific_metric w ''girth'' metric uid s) = Inr PNone)
       \<and> ((\<exists>g\<in>set gs. girth_reading metric g \<noteq> None) \<longrightarrow>
            (\<exists>g\<in>set gs. \<exists>v. girth_reading metric g = Some v
                \<and> fst (get_specific_metric w ''girth'' metric uid s) = Inr (PNum v)
                \<and> (\<forall>h\<in>set gs. girth_reading metric h \<noteq> None \<longrightarrow> time_stamp h \<le> time_stamp g)))"
proof -
  let ?s0 = "if truthy uid then s\<lparr>user_id := uid\<rparr> else s"
  from assms(1) obtain t where lu: "last_updated_girth s = Some t" by auto
  have g: "get_specific_metric w ''girth'' metric uid s
             = (if gs = [] then (Inr PNone, ?s0)
                else (Inr (first_girth_value metric (valid_girths metric gs)), ?s0))"
    using lu assms(2)
    by (cases "truthy uid")
       (simp_all add: get_specific_metric_def Let_def METRIC_TYPE_WEIGHT_def METRIC_TYPE_GIRTH_def)
  have 1: "snd (get_specific_metric w ''girth'' metric uid s) = ?s0"
    by (simp add: g)
  have 2: "fst (get_specific_metric w ''girth'' metric uid s) = Inr PNone"
    if "\<forall>g\<in>set gs. girth_reading metric g = None"
    using valid_girths_empty [OF that] by (simp add: g)
  have 3: "\<exists>g\<in>set gs. \<exists>v. girth_reading metric g = Some v
                \<and> fst (get_specific_metric w ''girth'' metric uid s) = Inr (PNum v)
                \<and> (\<forall>h\<in>set gs. girth_reading metric h \<noteq> None \<longrightarrow> time_stamp h \<le> time_stamp g)"
    if "\<exists>g\<in>set gs. girth_reading metric g \<noteq> None"
  proof -
    from valid_girths_hd [OF that] obtain g rest where
        v: "valid_girths metric gs = g # rest" "g \<in> set gs" "girth_reading metric g \<noteq> None"
        and m: "\<forall>h\<in>set gs. girth_reading metric h \<noteq> None \<longrightarrow> time_stamp h \<le> time_stamp g"
      by blast
    from v(3) obtain x where x: "girth_reading metric g = Some x" by auto
    have "gs \<noteq> []" using v(2) by auto
    moreover have "first_girth_value metric (valid_girths metric gs) = PNum x"
      unfolding v(1) by (rule first_girth_value_Cons [OF x])
    ultimately have "fst (get_specific_metric w ''girth'' metric uid s) = Inr (PNum x)"
      by (simp add: g)
    with v(2) x m show ?thesis by blast
  qed
  from 1 2 3 show ?thesis by blast
qed

theorem girth_metric_latest_witness:
  "last_updated_girth waist_client \<noteq> None
   \<and> girth_info waist_client = Some [\<lparr>time_stamp = 100, attrs = [(''waist_value'', Some 80)]\<rparr>,
                                     \<lparr>time_stamp = 200, attrs = [(''waist_value'', Some 0)]\<rparr>]
   \<and> fst (get_specific_metric expired_world ''girth'' ''waist'' PNone waist_client) = Inr (PNum 80)
   \<and> snd (get_specific_metric expired_world ''girth'' ''waist'' PNone waist_client) = waist_client
   \<and> fst (get_specific_metric expired_world ''girth'' ''hip'' PNone waist_client) = Inr PNone"
proof -
  let ?g1 = "\<lparr>time_stamp = 100, attrs = [(''waist_value'', Some (80::real))]\<rparr>"
  let ?g2 = "\<lparr>time_stamp = 200, attrs = [(''waist_value'', Some (0::real))]\<rparr>"
  have a: "last_updated_girth waist_client \<noteq> None"
    by (simp add: waist_client_def)
  have b: "girth_info waist_client = Some [?g1, ?g2]"
    by (simp add: waist_client_def)
  have r: "girth_reading ''waist'' ?g1 = Some 80" "girth_reading ''waist'' ?g2 = None"
          "girth_reading ''hip'' ?g1 = None" "girth_reading ''hip'' ?g2 = None"
    by (simp_all add: girth_reading_def)
  note t1 = girth_metric_latest [OF a b, of expired_world "''waist''" PNone]
  note t2 = girth_metric_latest [OF a b, of expired_world "''hip''" PNone]
  have "fst (get_specific_metric expired_world ''girth'' ''waist'' PNone waist_client) = Inr (PNum 80)"
    using t1 r by auto
  moreover have "fst (get_specific_metric expired_world ''girth'' ''hip'' PNone waist_client) = Inr PNone"
    using t2 r by auto
  moreover have "snd (get_specific_metric expired_world ''girth'' ''waist'' PNone waist_client) = waist_client"
    using t1 by simp
  ultimately show ?thesis using a b by simp
qed

subsection \<open>Data fetchers\<close>

text \<open>
  Claim C6. Each of the six fetchers (weight measurements, device info, girth, girth
  goal, growth record, messages) never raises. Whenever its request raises (a transport
  error, a non-success status, a body that is no dict, a failed probe or a failed
  re-authentication) or returns \<^verbatim>\<open>None\<close> (the retry budget used up by session-expired
  responses), the fetcher logs an error and returns \<^verbatim>\<open>None\<close>; and the request returns
  anything else only when the server sent a body with the success status.
\<close>

theorem fetchers_absent_on_failure:
  "fetch_contract w (get_measurements w s)
     (request w ''GET'' (api_url w API_MEASUREMENTS_URL ''last_at'' s) 3 True s)
   \<and> fetch_contract w (get_device_info w s)
     (request w ''GET'' (api_url w DEVICE_INFO_URL ''last_updated_at'' s) 3 True s)
   \<and> fetch_contract w (list_girth w s)
     (request w ''GET'' (api_url w GIRTH_URL ''last_updated_at'' s) 3 True s)
   \<and> fetch_contract w (list_girth_goal w s)
     (request w ''GET'' (api_url w GIRTH_GOAL_URL ''last_updated_at'' s) 3 True s)
   \<and> fetch_contract w (list_growth_record w s)
     (request w ''GET'' (api_url w GROWTH_RECORD_URL ''last_updated_at'' s) 3 True s)
   \<and> fetch_contract w (message_list w s)
     (request w ''GET'' (api_url w MESSAGE_LIST_URL ''last_updated_at'' s) 3 True s)"
  by (simp add: get_measurements_contract get_device_info_contract list_girth_contract
                list_girth_goal_contract list_growth_record_contract message_list_contract)

theorem fetchers_absent_on_failure_witness:
  "fst (request offline_world ''GET''
          (api_url offline_world GIRTH_URL ''last_updated_at'' signed_in_client) 3 True signed_in_client)
     = Inl APIError
   \<and> fst (list_girth offline_world signed_in_client) = Inr None
   \<and> last (events (snd (list_girth offline_world signed_in_client)))
       = Log Error ''Failed to fetch girth info''
   \<and> fst (request expired_world ''GET''
          (api_url expired_world MESSAGE_LIST_URL ''last_updated_at'' signed_in_client) 3 True signed_in_client)
     = Inr PNone
   \<and> fst (message_list expired_world signed_in_client) = Inr None
   \<and> last (events (snd (message_list expired_world signed_in_client)))
       = Log Error ''Failed to fetch messages.''"
proof -
  let ?s = signed_in_client
  let ?r1 = "request offline_world ''GET'' (api_url offline_world GIRTH_URL ''last_updated_at'' ?s) 3 True ?s"
  let ?r2 = "request expired_world ''GET'' (api_url expired_world MESSAGE_LIST_URL ''last_updated_at'' ?s) 3 True ?s"
  have a: "fst ?r1 = Inl APIError"
    by (simp add: offline_world_def api_url_def GIRTH_URL_def run_defs)
  have b: "fst ?r2 = Inr PNone"
    by (simp add: expired_world_def api_url_def MESSAGE_LIST_URL_def run_defs)
  from fetchers_absent_on_failure [of offline_world ?s]
  have "fetch_contract offline_world (list_girth offline_world ?s) ?r1" by blast
  with a have c: "absent_and_logged (list_girth offline_world ?s) (snd ?r1)"
    by (cases ?r1) (simp add: fetch_contract_def)
  from fetchers_absent_on_failure [of expired_world ?s]
  have "fetch_contract expired_world (message_list expired_world ?s) ?r2" by blast
  with b have d: "absent_and_logged (message_list expired_world ?s) (snd ?r2)"
    by (cases ?r2) (simp add: fetch_contract_def)
  have e: "last (events (snd (list_girth offline_world ?s))) = Log Error ''Failed to fetch girth info''"
    using a by (cases ?r1) (simp add: list_girth_def)
  have f: "last (events (snd (message_list expired_world ?s))) = Log Error ''Failed to fetch messages.''"
    using b by (cases ?r2) (simp add: message_list_def)
  show ?thesis
    using a b c d e f by (simp add: absent_and_logged_def)
qed

subsection \<open>Poll loop\<close>

text \<open>
  Claim C2 says that a started poller runs the three fetches, sleeps for the configured
  refresh interval and goes on to the next cycle. The constructor stores the interval in
  \<open>refresh\<close>, while the loop reads \<open>refresh_interval\<close>, which nothing creates. For every
  world, every client as the constructor builds it and then starts it, and whatever the
  configured interval: the first cycle runs the weight, the girth and the girth-goal
  fetch in this order, each returning normally; the read of the interval then raises,
  the handler around the loop logs the error, and the loop ends there, without a sleep
  or a second cycle, while \<open>is_polling_active\<close> is still set. (With \<open>refresh_interval\<close>
  set and no cancellation the loop does sleep and continue: \<open>polling_loop_continues\<close>.)
\<close>

theorem polling_loop_stops_after_first_cycle:
  "\<exists>r1 s1 r2 s2 r3 s3.
      get_info w (start_polling (init em pw uid rf px)) = (Inr r1, s1)
      \<and> list_girth w s1 = (Inr r2, s2)
      \<and> list_girth_goal w s2 = (Inr r3, s3)
      \<and> polling_loop (Suc fuel) w (start_polling (init em pw uid rf px))
          = Some (loop_exit (emit (Log Error ''Unexpected error in polling loop'')
                               (emit (Log Error ''Error fetching data'') s3)))
      \<and> is_polling_active s3
      \<and> refresh (start_polling (init em pw uid rf px)) = rf"
proof -
  let ?s = "start_polling (init em pw uid rf px)"
  have a: "is_polling_active ?s" "refresh_interval ?s = None"
    by (simp_all add: start_polling_def init_def emit_def)
  from poll_data_cycle [of w ?s] obtain r1 s1 r2 s2 r3 s3 where
      c: "get_info w ?s = (Inr r1, s1)" "list_girth w s1 = (Inr r2, s2)"
         "list_girth_goal w s2 = (Inr r3, s3)"
         "poll_data w ?s = (Inr (), emit (Log Error ''Error fetching data'') s3)"
    by blast
  have l: "polling_loop (Suc fuel) w ?s
             = Some (loop_exit (emit (Log Error ''Unexpected error in polling loop'')
                                  (emit (Log Error ''Error fetching data'') s3)))"
    using polling_loop_unset_interval [OF a, of fuel w] c(4) by simp
  have "is_polling_active (snd (poll_data w ?s))"
    using a by simp
  then have p: "is_polling_active s3" using c(4) by simp
  have "refresh ?s = rf"
    by (simp add: start_polling_def init_def emit_def)
  with c l p show ?thesis by blast
qed

end
